theory Spec2Isabelle
  imports Main "HOL-Library.Word"
begin

unbundle bit_operations_syntax

section \<open>Broadcast.cpp: a UDP broadcast probe\<close>

text \<open>
  The program is one C++ file written against Winsock. It parses its command line
  (\<open>parseCommandLine\<close>), starts Winsock (\<open>initWinSock\<close>), provisions one UDP socket in
  \<open>main\<close> and then runs either \<open>broadcast\<close> or \<open>receive\<close> for ever.

  The embedding keeps the functions and their names. What the program does to the outside
  (a line printed, a library or system call made) is recorded, in program order, as a list
  of events; what the outside answers (the return value of a system call, an arriving
  datagram) is read from a script that the caller supplies. A loop that never ends by
  itself runs until its script is used up, at which point the process counts as stopped
  from outside.
\<close>

subsection \<open>Events, results\<close>

text \<open>An argument handed to \<open>printf\<close> after the format string.\<close>

datatype arg = AInt int | AStr string | AChar char

text \<open>\<open>struct sockaddr_in\<close> (family is always \<open>AF_INET\<close>): both fields in network byte order.\<close>

record sockaddr_in =
  sin_addr :: "32 word"
  sin_port :: "16 word"

datatype sockopt = SO_BROADCAST | IP_MULTICAST_TTL

datatype event =
    Printf string "arg list"
  | Perror string
  | Call_WSAStartup
  | Call_socket
  | Call_setsockopt sockopt int
  | Call_bind sockaddr_in
  | Call_inet_addr string
  | Call_sendto "8 word list" sockaddr_in
  | Call_recvfrom nat
  | Call_Sleep nat

text \<open>
  \<open>Perror s\<close> is the call \<open>perror(s)\<close>: it prints \<open>s\<close> and the message for the value that
  \<open>errno\<close> has. The functions of Winsock do not set \<open>errno\<close>; they keep their error for
  \<open>WSAGetLastError()\<close>.
\<close>

text \<open>
  How a call that cannot go on ends. \<open>InvalidParameter\<close>: \<open>strcpy_s\<close> was given a source that
  does not fit the destination; the runtime's invalid-parameter handler ends the process.
\<close>

datatype fault = InvalidParameter

text \<open>
  How a \<open>void\<close> function that may call \<open>exit\<close> ends: \<open>Exited c\<close> is \<open>exit(c)\<close>,
  \<open>Returned\<close> is a normal return to the caller, \<open>Stopped\<close> is the script running out
  while the function is still looping (the process is ended from outside), and
  \<open>Crashed\<close> is a fault.
\<close>

datatype outcome = Exited int | Returned | Stopped | Crashed fault

subsection \<open>The C library functions the parser calls\<close>

text \<open>\<open>isspace\<close> and \<open>isdigit\<close> in the C locale.\<close>

definition isspace :: "char \<Rightarrow> bool" where
  "isspace c = (c = CHR '' '' \<or> (9 \<le> (of_char c :: nat) \<and> (of_char c :: nat) \<le> 13))"

definition isdigit :: "char \<Rightarrow> bool" where
  "isdigit c = (48 \<le> (of_char c :: nat) \<and> (of_char c :: nat) \<le> 57)"

definition digit_val :: "char \<Rightarrow> int" where
  "digit_val c = int (of_char c) - 48"

text \<open>The value of a run of decimal digits, most significant first.\<close>

definition decimal :: "string \<Rightarrow> int" where
  "decimal ds = foldl (\<lambda>acc c. acc * 10 + digit_val c) 0 ds"

text \<open>\<open>long\<close> has 32 bits where Winsock exists.\<close>

definition LONG_MAX :: int where "LONG_MAX = 2147483647"
definition LONG_MIN :: int where "LONG_MIN = - 2147483648"

text \<open>
  \<open>strtol(s, NULL, 10)\<close>: skip white space, read an optional sign, read the longest run of
  decimal digits. No digit gives 0; a value that does not fit a \<open>long\<close> gives \<open>LONG_MAX\<close>
  or \<open>LONG_MIN\<close>, by its sign. \<open>strtol\<close> has no failure return.
\<close>

definition strtol_neg :: "string \<Rightarrow> bool" where
  "strtol_neg s = (case dropWhile isspace s of c # r \<Rightarrow> c = CHR ''-'' | [] \<Rightarrow> False)"

definition strtol_digits :: "string \<Rightarrow> string" where
  "strtol_digits s =
     takeWhile isdigit
       (case dropWhile isspace s of
          c # r \<Rightarrow> if c = CHR ''-'' \<or> c = CHR ''+'' then r else c # r
        | [] \<Rightarrow> [])"

definition strtol :: "string \<Rightarrow> int" where
  "strtol s =
     (let ds = strtol_digits s
      in if ds = [] then 0
         else if strtol_neg s then max LONG_MIN (- decimal ds)
         else min LONG_MAX (decimal ds))"

text \<open>
  \<open>strcpy_s(dst, size, src)\<close>: the copy needs room for the text and its terminator.
  \<open>Inr\<close> holds the new content of the destination.
\<close>

definition strcpy_s :: "nat \<Rightarrow> string \<Rightarrow> fault + string" where
  "strcpy_s n src = (if length src < n then Inr src else Inl InvalidParameter)"

subsection \<open>parseCommandLine\<close>

text \<open>
  What \<open>parseCommandLine\<close> writes through its pointers: \<open>*pnPort\<close>, \<open>*pnTtl\<close>, \<open>*pbRecv\<close>
  and the buffer \<open>sAddr\<close>.
\<close>

record config =
  nPort :: int
  nTtl :: int
  bRecv :: int
  sAddr :: string

text \<open>
  An argument is a C string: its characters, then the terminator \<open>NUL\<close>. The arguments lie
  in memory one after the other, as the C runtime writes them, so the bytes after the
  terminator of an argument are the next argument; \<open>m\<close> is the text found there, up to its
  own terminator.

  \<open>argv[i][1]\<close> is the second character of the argument, and the terminator when the
  argument has one character. The code reads it without looking at the length: for an
  empty argument it is the byte after the terminator, the first byte of \<open>m\<close> (or the
  terminator of \<open>m\<close>). \<open>&argv[i][2]\<close> is the text from the next byte on; the code reads it
  only when \<open>argv[i][1]\<close> is \<open>a\<close>, \<open>p\<close> or \<open>t\<close>.
\<close>

fun argv_1 :: "string \<Rightarrow> string \<Rightarrow> char" where
  "argv_1 [] m = (case m of [] \<Rightarrow> CHR 0x00 | c # r \<Rightarrow> c)"
| "argv_1 [c] m = CHR 0x00"
| "argv_1 (c # d # r) m = d"

definition argv_2 :: "string \<Rightarrow> string \<Rightarrow> string" where
  "argv_2 a m = (if a = [] then drop 1 m else drop 2 a)"

definition TAB :: string where "TAB = [CHR 0x09]"

definition displayUsage :: "event list" where
  "displayUsage =
     [Printf ''broadcast [-r] [-aAAAA] [-pPPPP] [tTTTT] [-?]\<newline>'' [],
      Printf (TAB @ ''  -r'' @ TAB @ ''Receive broadcasts. Default is to send without this flag.\<newline>'') [],
      Printf (TAB @ ''AAAA'' @ TAB @ ''IP address to send broadcast to.\<newline>'' @
              TAB @ TAB @ ''By default the global broadcast address 255.255.255.255 is used.'' @
              TAB @ TAB @ ''If you want to test a specific network you could use this to specify.\<newline>'' @
              TAB @ TAB @ ''EG 192.168.50.1\<newline>'') [],
      Printf (TAB @ ''PPPP'' @ TAB @ ''The port to broadcast on. Default is 40061\<newline>'') [],
      Printf (TAB @ ''TTTT'' @ TAB @ ''The multi-cast TTL to use. Default is 1\<newline>'') []]"

text \<open>
  The body of the \<open>for\<close> loop: the \<open>switch\<close> on \<open>argv[i][1]\<close>, for the argument \<open>a\<close> with
  \<open>m\<close> after it in memory. The result is what the iteration printed, and either the
  values as written or the fault that ended the process.
\<close>

definition parse_arg :: "nat \<Rightarrow> string \<Rightarrow> string \<Rightarrow> config \<Rightarrow> event list \<times> (fault + config)" where
  "parse_arg nAddrSize a m cfg =
     (let c = argv_1 a m in
      if c = CHR ''a'' then
        (case strcpy_s nAddrSize (argv_2 a m) of
           Inl f \<Rightarrow> ([], Inl f)
         | Inr s \<Rightarrow> ([], Inr (cfg\<lparr>sAddr := s\<rparr>)))
      else if c = CHR ''p'' then ([], Inr (cfg\<lparr>nPort := strtol (argv_2 a m)\<rparr>))
      else if c = CHR ''r'' then ([], Inr (cfg\<lparr>bRecv := 1\<rparr>))
      else if c = CHR ''t'' then ([], Inr (cfg\<lparr>nTtl := strtol (argv_2 a m)\<rparr>))
      else if c = CHR ''?'' then (displayUsage, Inr cfg)
      else ([Printf ''Unknown command line argument '%c'\<newline>'' [AChar c]], Inr cfg))"

text \<open>
  What lies in memory after the argument that is being read: the next argument, and
  \<open>beyond\<close>, the text after the terminator of the last argument, when there is no next.
\<close>

definition following :: "string list \<Rightarrow> string \<Rightarrow> string" where
  "following as beyond = (case as of [] \<Rightarrow> beyond | b # bs \<Rightarrow> b)"

text \<open>The loop \<open>for (i = 1; i < argc; i++)\<close>, over the arguments still to come.\<close>

fun parse_loop :: "nat \<Rightarrow> string list \<Rightarrow> string \<Rightarrow> config \<Rightarrow> event list \<times> (fault + config)" where
  "parse_loop nAddrSize [] beyond cfg = ([], Inr cfg)"
| "parse_loop nAddrSize (a # as) beyond cfg =
     (case parse_arg nAddrSize a (following as beyond) cfg of
        (ev, Inl f) \<Rightarrow> (ev, Inl f)
      | (ev, Inr cfg') \<Rightarrow>
          (case parse_loop nAddrSize as beyond cfg' of (evs, r) \<Rightarrow> (ev @ evs, r)))"

text \<open>
  \<open>parseCommandLine(argc, argv, pnPort, pnTtl, pbRecv, sAddr, nAddrSize)\<close>: \<open>argv\<close> is the
  whole vector (\<open>argc\<close> its length) and \<open>beyond\<close> the text in memory after its last
  argument; \<open>port\<close>, \<open>ttl\<close> and \<open>addr\<close> are what the caller stored behind the pointers.
  \<open>*pbRecv\<close> is set to 0 first; the loop starts at index 1.
\<close>

definition parseCommandLine ::
  "string list \<Rightarrow> string \<Rightarrow> int \<Rightarrow> int \<Rightarrow> string \<Rightarrow> nat \<Rightarrow> event list \<times> (fault + config)" where
  "parseCommandLine argv beyond port ttl addr nAddrSize =
     parse_loop nAddrSize (drop 1 argv) beyond \<lparr>nPort = port, nTtl = ttl, bRecv = 0, sAddr = addr\<rparr>"

subsection \<open>Byte order, addresses, the bytes of an int\<close>

text \<open>
  The machine is little-endian, as every machine with Winsock is. \<open>htons\<close> takes a
  \<open>u_short\<close>: the \<open>int\<close> it is given is cut to 16 bits first.
\<close>

definition swap16 :: "16 word \<Rightarrow> 16 word" where
  "swap16 h = push_bit 8 h OR drop_bit 8 h"

definition htons :: "int \<Rightarrow> 16 word" where
  "htons x = swap16 (word_of_int x)"

definition ntohs :: "16 word \<Rightarrow> 16 word" where
  "ntohs n = swap16 n"

definition htonl :: "32 word \<Rightarrow> 32 word" where
  "htonl h = push_bit 24 h OR push_bit 8 (h AND 0xFF00) OR (drop_bit 8 h AND 0xFF00) OR drop_bit 24 h"

definition INADDR_ANY :: "32 word" where "INADDR_ANY = 0"
definition INADDR_BROADCAST :: "32 word" where "INADDR_BROADCAST = 0xFFFFFFFF"

text \<open>The decimal text of a number, for \<open>inet_ntoa\<close>.\<close>

fun show_nat :: "nat \<Rightarrow> string" where
  "show_nat n = (if n < 10 then [char_of (48 + n)] else show_nat (n div 10) @ [char_of (48 + n mod 10)])"

text \<open>
  \<open>inet_ntoa\<close>: the four bytes of the address in memory order, which for an address in
  network byte order on this machine is from the low byte up.
\<close>

definition inet_ntoa :: "32 word \<Rightarrow> string" where
  "inet_ntoa a =
     show_nat (unat (a AND 0xFF)) @ ''.'' @
     show_nat (unat (drop_bit 8 a AND 0xFF)) @ ''.'' @
     show_nat (unat (drop_bit 16 a AND 0xFF)) @ ''.'' @
     show_nat (unat (drop_bit 24 a))"

text \<open>The four bytes of an \<open>int\<close> in memory, \<open>(char *)&nValue\<close>, and the \<open>int\<close> read back.\<close>

definition int_bytes :: "32 word \<Rightarrow> 8 word list" where
  "int_bytes v = [ucast v, ucast (drop_bit 8 v), ucast (drop_bit 16 v), ucast (drop_bit 24 v)]"

definition bytes_int :: "8 word list \<Rightarrow> 32 word" where
  "bytes_int bs = foldr (\<lambda>b acc. ucast b OR push_bit 8 acc) bs 0"

subsection \<open>broadcast\<close>

text \<open>
  The body of \<open>for (;;)\<close> in \<open>broadcast\<close>, over the return values that the coming calls of
  \<open>sendto\<close> will have. \<open>nValue\<close> is a 32-bit \<open>int\<close>, printed signed; \<open>nValue++\<close> wraps.
\<close>

fun broadcast_loop :: "sockaddr_in \<Rightarrow> 32 word \<Rightarrow> int list \<Rightarrow> event list \<times> outcome" where
  "broadcast_loop dst nValue [] = ([], Stopped)"
| "broadcast_loop dst nValue (r # rs) =
     (if r < 0 then
        ([Printf ''Sending %d\<newline>'' [AInt (sint nValue)],
          Call_sendto (int_bytes nValue) dst,
          Perror ''Sending broadcast''], Exited 1)
      else
        (case broadcast_loop dst (nValue + 1) rs of
           (evs, out) \<Rightarrow>
             ([Printf ''Sending %d\<newline>'' [AInt (sint nValue)],
               Call_sendto (int_bytes nValue) dst,
               Call_Sleep 5000] @ evs, out)))"

text \<open>
  \<open>broadcast(s, nPort, sAddr)\<close>. \<open>inet_addr\<close> is the platform's function from the text of
  an address to the address in network byte order; it is a parameter here. There is one
  socket, so \<open>s\<close> is left out.
\<close>

definition broadcast ::
  "(string \<Rightarrow> 32 word) \<Rightarrow> int \<Rightarrow> string \<Rightarrow> int list \<Rightarrow> event list \<times> outcome" where
  "broadcast inet_addr port addr sendto_rs =
     (case (if length addr > 0 then ([Call_inet_addr addr], inet_addr addr)
            else ([], htonl INADDR_BROADCAST)) of
        (ev, a) \<Rightarrow>
          (let dst = \<lparr>sin_addr = a, sin_port = htons port\<rparr> in
           case broadcast_loop dst 0 sendto_rs of
             (evs, out) \<Rightarrow>
               (ev @ [Printf ''Broadcast to %s:%d\<newline>''
                        [AStr (inet_ntoa (sin_addr dst)), AInt (uint (ntohs (sin_port dst)))]] @ evs,
                out)))"

subsection \<open>receive\<close>

text \<open>What the next call of \<open>recvfrom\<close> meets: a datagram (payload, source) or an error.\<close>

datatype arrival = Datagram "8 word list" sockaddr_in | Recv_error int

definition SOCKET_ERROR :: int where "SOCKET_ERROR = - 1"
definition WSAEMSGSIZE :: int where "WSAEMSGSIZE = 10040"

text \<open>
  Winsock's \<open>recvfrom(s, buf, len, 0, from, fromlen)\<close> on a datagram socket, given the
  content of \<open>buf\<close> and \<open>from\<close> before the call. The result is the return value, the
  content of \<open>buf\<close> and of \<open>from\<close> after the call, and the value of \<open>WSAGetLastError()\<close>.
  A datagram that fits is copied to the front of the buffer and its length returned. A
  datagram longer than \<open>len\<close> fills the buffer with its first part, loses the rest and
  makes the call fail with \<open>WSAEMSGSIZE\<close>.
\<close>

definition recvfrom ::
  "arrival \<Rightarrow> 8 word list \<Rightarrow> sockaddr_in \<Rightarrow> nat \<Rightarrow> int \<times> 8 word list \<times> sockaddr_in \<times> int" where
  "recvfrom a buf from len =
     (case a of
        Recv_error e \<Rightarrow> (SOCKET_ERROR, buf, from, e)
      | Datagram p src \<Rightarrow>
          if length p \<le> len then (int (length p), p @ drop (length p) buf, src, 0)
          else (SOCKET_ERROR, take len p @ drop len buf, src, WSAEMSGSIZE))"

text \<open>
  The body of \<open>for (;;)\<close> in \<open>receive\<close>, over what the coming calls of \<open>recvfrom\<close> will meet.
  \<open>nValue\<close> is kept as its four bytes in memory, \<open>dst\<close> as the last content of the local.
\<close>

fun receive_loop :: "8 word list \<Rightarrow> sockaddr_in \<Rightarrow> arrival list \<Rightarrow> event list \<times> outcome" where
  "receive_loop nValue dst [] = ([], Stopped)"
| "receive_loop nValue dst (a # as) =
     (case recvfrom a nValue dst 4 of
        (result, nValue', dst', err) \<Rightarrow>
          if result < 0 then
            (Call_recvfrom 4 #
               (if result = SOCKET_ERROR
                then [Printf ''recvfrom failed with error %d\<newline>'' [AInt err]] else []),
             Exited 1)
          else
            (case receive_loop nValue' dst' as of
               (evs, out) \<Rightarrow>
                 ([Call_recvfrom 4,
                   Printf ''Received %d from '%s'\<newline>''
                     [AInt (sint (bytes_int nValue')), AStr (inet_ntoa (sin_addr dst'))]] @ evs,
                  out)))"

text \<open>
  \<open>receive(s)\<close>. The local \<open>dst\<close> is not initialised: \<open>dst0\<close> is what it happens to hold.
\<close>

definition receive :: "sockaddr_in \<Rightarrow> arrival list \<Rightarrow> event list \<times> outcome" where
  "receive dst0 arrivals =
     (case receive_loop (int_bytes 0) dst0 arrivals of
        (evs, out) \<Rightarrow> (Printf ''Waiting for data\<newline>'' [] # evs, out))"

subsection \<open>initWinSock and main\<close>

text \<open>\<open>initWinSock\<close>, given what \<open>WSAStartup\<close> will return.\<close>

definition initWinSock :: "int \<Rightarrow> event list \<times> int" where
  "initWinSock err =
     (if err \<noteq> 0 then ([Call_WSAStartup, Printf ''WSAStartup failed with error: %d\<newline>'' [AInt err]], 1)
      else ([Call_WSAStartup], 0))"

text \<open>
  What the process finds and what the system will answer during one run: the text in
  memory after the last argument, the return values of the calls, the datagrams that
  arrive, and \<open>WSAGetLastError_r\<close>, the error that Winsock keeps for a call of \<open>main\<close> that
  failed.
\<close>

record os =
  argv_beyond :: string
  WSAGetLastError_r :: int
  WSAStartup_r :: int
  socket_r :: int
  setsockopt_broadcast_r :: int
  setsockopt_ttl_r :: int
  bind_r :: int
  inet_addr_f :: "string \<Rightarrow> 32 word"
  sendto_rs :: "int list"
  receive_dst0 :: sockaddr_in
  arrivals :: "arrival list"

text \<open>Events that happened first, then the rest of the run.\<close>

definition after :: "event list \<Rightarrow> event list \<times> outcome \<Rightarrow> event list \<times> outcome" where
  "after evs r = (evs @ fst r, snd r)"

text \<open>
  \<open>main(argc, argv)\<close>. \<open>Call_socket\<close> is \<open>socket(AF_INET, SOCK_DGRAM, 0)\<close>; the
  \<open>setsockopt\<close> events carry the option and the value set. \<open>main\<close> does not call
  \<open>WSAGetLastError()\<close>. A loop that returned would reach \<open>exit(0)\<close>.
\<close>

definition main :: "os \<Rightarrow> string list \<Rightarrow> event list \<times> outcome" where
  "main sys argv =
     (case parseCommandLine argv (argv_beyond sys) 40061 1 [] 256 of
        (ev, Inl f) \<Rightarrow> (ev, Crashed f)
      | (ev, Inr cfg) \<Rightarrow> after ev
         (case initWinSock (WSAStartup_r sys) of
            (ev_w, rc) \<Rightarrow> after ev_w
              (if rc \<noteq> 0 then ([], Exited 1) else
               after [Call_socket]
              (if socket_r sys < 0 then ([Perror ''Setting up socket''], Exited 1) else
               after [Call_setsockopt SO_BROADCAST 1]
              (if setsockopt_broadcast_r sys < 0 then ([Perror ''Setting broadcast''], Exited 1) else
               after [Call_setsockopt IP_MULTICAST_TTL (nTtl cfg)]
              (if setsockopt_ttl_r sys < 0 then ([Perror ''Setting TTL\<newline>''], Exited 1) else
               after [Call_bind \<lparr>sin_addr = htonl INADDR_ANY, sin_port = htons (nPort cfg)\<rparr>]
              (if bind_r sys < 0 then ([Perror ''Binding socket''], Exited 1) else
               (case (if bRecv cfg \<noteq> 0 then receive (receive_dst0 sys) (arrivals sys)
                      else broadcast (inet_addr_f sys) (nPort cfg) (sAddr cfg) (sendto_rs sys)) of
                  (ev_l, Returned) \<Rightarrow> (ev_l, Exited 0)
                | (ev_l, out) \<Rightarrow> (ev_l, out)))))))))"

subsection \<open>Notions used in the properties\<close>



text \<open>Every argument of a list with what lies after it in memory.\<close>

fun with_following :: "string list \<Rightarrow> string \<Rightarrow> (string \<times> string) list" where
  "with_following [] beyond = []"
| "with_following (a # as) beyond = (a, following as beyond) # with_following as beyond"

text \<open>
  The invariant the specification gives for a run configuration: the hop limit is not
  negative, the port is an unsigned 16-bit value, and a destination override, if there is
  one, is a dotted quad: four decimal numbers of one to three digits, each at most 255,
  with dots between them.
\<close>

fun split_dots :: "string \<Rightarrow> string list" where
  "split_dots [] = [[]]"
| "split_dots (c # s) =
     (if c = CHR ''.'' then [] # split_dots s
      else (case split_dots s of p # ps \<Rightarrow> (c # p) # ps | [] \<Rightarrow> [[c]]))"

definition is_octet :: "string \<Rightarrow> bool" where
  "is_octet p = (p \<noteq> [] \<and> length p \<le> 3 \<and> list_all isdigit p \<and> decimal p \<le> 255)"

definition is_ipv4 :: "string \<Rightarrow> bool" where
  "is_ipv4 s = (length (split_dots s) = 4 \<and> list_all is_octet (split_dots s))"

definition valid_port :: "int \<Rightarrow> bool" where
  "valid_port p = (0 \<le> p \<and> p \<le> 65535)"

definition config_invariant :: "config \<Rightarrow> bool" where
  "config_invariant cfg =
     (0 \<le> nTtl cfg \<and> valid_port (nPort cfg) \<and> (sAddr cfg = [] \<or> is_ipv4 (sAddr cfg)))"

text \<open>
  An argument, with \<open>m\<close> after it in memory, that carries nothing against the invariant:
  read as a port override it has a number that is a port, read as a hop-limit override a
  number that is not negative, read as an address override a text that is empty or a
  dotted quad; or it is read as none of these.
\<close>

definition override_valid :: "string \<Rightarrow> string \<Rightarrow> bool" where
  "override_valid a m =
     (let c = argv_1 a m in
      if c = CHR ''a'' then argv_2 a m = [] \<or> is_ipv4 (argv_2 a m)
      else if c = CHR ''p'' then valid_port (strtol (argv_2 a m))
      else if c = CHR ''t'' then 0 \<le> strtol (argv_2 a m)
      else True)"

text \<open>The values sent, read back from the payloads, in the order of the calls of \<open>sendto\<close>.\<close>

fun sent_values :: "event list \<Rightarrow> 32 word list" where
  "sent_values [] = []"
| "sent_values (Call_sendto p d # es) = bytes_int p # sent_values es"
| "sent_values (e # es) = sent_values es"

text \<open>The payloads sent (\<open>Inl\<close>) and the suspensions in milliseconds (\<open>Inr\<close>), in order.\<close>

fun sends_and_sleeps :: "event list \<Rightarrow> (8 word list + nat) list" where
  "sends_and_sleeps [] = []"
| "sends_and_sleeps (Call_sendto p d # es) = Inl p # sends_and_sleeps es"
| "sends_and_sleeps (Call_Sleep n # es) = Inr n # sends_and_sleeps es"
| "sends_and_sleeps (e # es) = sends_and_sleeps es"

text \<open>The destination of every call of \<open>sendto\<close>, and the text of every call of \<open>inet_addr\<close>.\<close>

fun destinations :: "event list \<Rightarrow> sockaddr_in list" where
  "destinations [] = []"
| "destinations (Call_sendto p d # es) = d # destinations es"
| "destinations (e # es) = destinations es"

fun resolutions :: "event list \<Rightarrow> string list" where
  "resolutions [] = []"
| "resolutions (Call_inet_addr a # es) = a # resolutions es"
| "resolutions (e # es) = resolutions es"

text \<open>
  What the variables behind the pointers can hold at all: a 32-bit \<open>long\<close> in \<open>*pnPort\<close> and
  \<open>*pnTtl\<close>, a text with its terminator in the \<open>n\<close> bytes of \<open>sAddr\<close>.
\<close>

definition within_storage :: "nat \<Rightarrow> config \<Rightarrow> bool" where
  "within_storage n cfg =
     (LONG_MIN \<le> nPort cfg \<and> nPort cfg \<le> LONG_MAX \<and> LONG_MIN \<le> nTtl cfg \<and> nTtl cfg \<le> LONG_MAX
      \<and> length (sAddr cfg) < n)"

text \<open>
  A system for examples: the byte after the last argument is a terminator, every call
  succeeds, \<open>inet_addr\<close> gives \<open>INADDR_NONE\<close>, and the process is stopped from outside before
  its first send or receive.
\<close>

definition quiet_os :: os where
  "quiet_os = \<lparr>argv_beyond = [], WSAGetLastError_r = 0, WSAStartup_r = 0, socket_r = 3, setsockopt_broadcast_r = 0, setsockopt_ttl_r = 0,
     bind_r = 0, inet_addr_f = (\<lambda>s. 0xFFFFFFFF), sendto_rs = [],
     receive_dst0 = \<lparr>sin_addr = 0, sin_port = 0\<rparr>, arrivals = []\<rparr>"

text \<open>What a call of \<open>recvfrom\<close> with the four bytes of \<open>nValue\<close> does not fail on.\<close>

definition accepted :: "arrival \<Rightarrow> bool" where
  "accepted a = (case a of Datagram p src \<Rightarrow> length p \<le> 4 | Recv_error e \<Rightarrow> False)"

text \<open>
  What \<open>receive\<close> reports: for every line printed with the format of a received value,
  the value and the address text printed.
\<close>

fun reports :: "event list \<Rightarrow> (int \<times> string) list" where
  "reports [] = []"
| "reports (Printf f [AInt v, AStr a] # es) =
     (if f = ''Received %d from '%s'\<newline>'' then (v, a) # reports es else reports es)"
| "reports (e # es) = reports es"

section \<open>Properties\<close>

subsection \<open>The parser\<close>

declare show_nat.simps [simp del]

lemmas strtol_eval = strtol_def strtol_digits_def strtol_neg_def isspace_def isdigit_def
  decimal_def digit_val_def LONG_MAX_def LONG_MIN_def

lemmas parse_eval = parseCommandLine_def parse_arg_def strcpy_s_def following_def argv_2_def

lemma parse_loop_Cons_ok:
  "parse_arg n a (following as beyond) cfg = (ev, Inr cfg') \<Longrightarrow>
   parse_loop n (a # as) beyond cfg =
     (ev @ fst (parse_loop n as beyond cfg'), snd (parse_loop n as beyond cfg'))"
  by (simp add: case_prod_beta)

lemma parse_loop_Inr:
  assumes "snd (parse_loop n (a # as) beyond cfg) = Inr cfg'"
  obtains ev cfg1 where "parse_arg n a (following as beyond) cfg = (ev, Inr cfg1)"
    and "snd (parse_loop n as beyond cfg1) = Inr cfg'"
proof (cases "parse_arg n a (following as beyond) cfg")
  case (Pair ev r)
  show ?thesis
  proof (cases r)
    case (Inl f)
    with Pair assms show ?thesis by simp
  next
    case (Inr cfg1)
    with Pair assms have "snd (parse_loop n as beyond cfg1) = Inr cfg'"
      by (simp add: case_prod_beta)
    with Pair Inr that show ?thesis by simp
  qed
qed























subsection \<open>strtol on the decimal text of a number\<close>

lemma isdigit_char_of: "(n::nat) < 10 \<Longrightarrow> isdigit (char_of (48 + n))"
  by (simp add: isdigit_def)

lemma digit_val_char_of: "(n::nat) < 10 \<Longrightarrow> digit_val (char_of (48 + n)) = int n"
  by (simp add: digit_val_def)

lemma decimal_snoc: "decimal (ds @ [c]) = decimal ds * 10 + digit_val c"
  by (simp add: decimal_def)

lemma show_nat_digits: "list_all isdigit (show_nat k)"
proof (induction k rule: show_nat.induct)
  case (1 n)
  show ?case
  proof (cases "n < 10")
    case True
    then show ?thesis by (subst show_nat.simps) (simp add: isdigit_char_of)
  next
    case False
    with 1 have "list_all isdigit (show_nat (n div 10))" by simp
    with False show ?thesis by (subst show_nat.simps) (simp add: isdigit_char_of)
  qed
qed

lemma show_nat_nonempty: "show_nat k \<noteq> []"
  by (subst show_nat.simps) simp

lemma decimal_show_nat: "decimal (show_nat k) = int k"
proof (induction k rule: show_nat.induct)
  case (1 n)
  show ?case
  proof (cases "n < 10")
    case True
    then show ?thesis by (subst show_nat.simps) (simp add: decimal_def digit_val_char_of)
  next
    case False
    with 1 have "decimal (show_nat (n div 10)) = int (n div 10)" by simp
    with False show ?thesis
      by (subst show_nat.simps) (simp add: decimal_snoc digit_val_char_of zdiv_int zmod_int)
  qed
qed

lemma isdigit_not_space: "isdigit c \<Longrightarrow> \<not> isspace c"
  by (auto simp add: isdigit_def isspace_def)

lemma isdigit_not_sign: "isdigit c \<Longrightarrow> c \<noteq> CHR ''-'' \<and> c \<noteq> CHR ''+''"
  by (auto simp add: isdigit_def)

lemma takeWhile_all: "list_all P xs \<Longrightarrow> takeWhile P xs = xs"
  by (induction xs) simp_all

lemma strtol_digits_show_nat: "strtol_digits (show_nat k) = show_nat k"
proof -
  obtain c r where cr: "show_nat k = c # r"
    using show_nat_nonempty [of k] by (cases "show_nat k") auto
  have all: "list_all isdigit (c # r)" using show_nat_digits [of k] cr by simp
  then have c: "isdigit c" by simp
  show ?thesis
    unfolding strtol_digits_def cr
    using c all isdigit_not_space [OF c] isdigit_not_sign [OF c]
    by (simp add: takeWhile_all)
qed

lemma strtol_neg_show_nat: "\<not> strtol_neg (show_nat k)"
proof -
  obtain c r where cr: "show_nat k = c # r"
    using show_nat_nonempty [of k] by (cases "show_nat k") auto
  have "isdigit c" using show_nat_digits [of k] cr by simp
  then show ?thesis
    unfolding strtol_neg_def cr
    using isdigit_not_space [of c] isdigit_not_sign [of c] by simp
qed

lemma strtol_show_nat: "strtol (show_nat k) = min LONG_MAX (int k)"
  by (simp add: strtol_def strtol_digits_show_nat strtol_neg_show_nat show_nat_nonempty
      decimal_show_nat)

lemma minus_not_space: "\<not> isspace CHR ''-''"
  by (simp add: isspace_def)

lemma strtol_minus_show_nat: "strtol (CHR ''-'' # show_nat k) = max LONG_MIN (- int k)"
proof -
  have d: "strtol_digits (CHR ''-'' # show_nat k) = show_nat k"
    using show_nat_digits [of k] by (simp add: strtol_digits_def minus_not_space takeWhile_all)
  have n: "strtol_neg (CHR ''-'' # show_nat k)"
    by (simp add: strtol_neg_def minus_not_space)
  show ?thesis
    by (simp add: strtol_def d n show_nat_nonempty decimal_show_nat)
qed

lemma decimal_nonneg: "list_all isdigit ds \<Longrightarrow> 0 \<le> decimal ds"
proof (induction ds rule: rev_induct)
  case Nil
  show ?case by (simp add: decimal_def)
next
  case (snoc c ds)
  then have "0 \<le> decimal ds" and "0 \<le> digit_val c"
    by (simp_all add: isdigit_def digit_val_def)
  then show ?case by (simp add: decimal_snoc)
qed

lemma strtol_digits_are_digits: "list_all isdigit (strtol_digits s)"
  by (auto simp add: strtol_digits_def list_all_iff dest: set_takeWhileD)

lemma strtol_range: "LONG_MIN \<le> strtol s \<and> strtol s \<le> LONG_MAX"
  using decimal_nonneg [OF strtol_digits_are_digits, of s]
  by (simp add: strtol_def Let_def LONG_MIN_def LONG_MAX_def)

lemma strtol_no_digits: "strtol_digits s = [] \<Longrightarrow> strtol s = 0"
  by (simp add: strtol_def)

subsection \<open>Numeric overrides\<close>

text \<open>
  C7, as the claim has it, fails: a number that is out of range does not become zero.
  \<open>-p70000\<close> stores 70000, which is no port, and \<open>-t99999999999\<close>, which does not fit a
  \<open>long\<close>, stores \<open>LONG_MAX\<close>.
\<close>

theorem out_of_range_override_is_not_zero:
  "snd (parseCommandLine [''broadcast'', ''-p70000'', ''-t99999999999''] [] 40061 1 [] 256)
     = Inr \<lparr>nPort = 70000, nTtl = 2147483647, bRecv = 0, sAddr = []\<rparr>
   \<and> (70000 :: int) \<noteq> 0 \<and> (2147483647 :: int) \<noteq> 0"
  by (simp add: parse_eval strtol_eval)

text \<open>
  C7, amended. A port or hop-limit override never fails: whatever the text \<open>s\<close> after the
  flag character, the field becomes \<open>strtol s\<close>. That is zero when \<open>s\<close> has no digit where
  a number is read (after white space and a sign). For the decimal text of a number \<open>k\<close>
  it is \<open>k\<close> itself when \<open>k\<close> fits a 32-bit \<open>long\<close>, also when \<open>k\<close> is no port or hop limit,
  and the nearest bound, \<open>LONG_MAX\<close> or \<open>LONG_MIN\<close>, otherwise. The value always lies
  between the bounds.
\<close>

theorem numeric_override_is_coerced_by_strtol:
  "parse_arg n (c # CHR ''p'' # s) m cfg = ([], Inr (cfg\<lparr>nPort := strtol s\<rparr>))
   \<and> parse_arg n (c # CHR ''t'' # s) m cfg = ([], Inr (cfg\<lparr>nTtl := strtol s\<rparr>))
   \<and> (strtol_digits s = [] \<longrightarrow> strtol s = 0)
   \<and> strtol (show_nat k) = min LONG_MAX (int k)
   \<and> strtol (CHR ''-'' # show_nat k) = max LONG_MIN (- int k)
   \<and> LONG_MIN \<le> strtol s \<and> strtol s \<le> LONG_MAX"
  using strtol_range [of s]
  by (simp add: parse_arg_def argv_2_def strtol_no_digits strtol_show_nat strtol_minus_show_nat)

theorem numeric_override_is_coerced_by_strtol_witness:
  "strtol_digits ''abc'' = [] \<and> strtol ''abc'' = 0
   \<and> parse_arg 256 ''-pabc'' [] \<lparr>nPort = 40061, nTtl = 1, bRecv = 0, sAddr = []\<rparr>
       = ([], Inr \<lparr>nPort = 0, nTtl = 1, bRecv = 0, sAddr = []\<rparr>)"
proof -
  have d: "strtol_digits ''abc'' = []" by (simp add: strtol_eval)
  show ?thesis
    using d numeric_override_is_coerced_by_strtol [where n = 256 and c = "CHR ''-''"
        and s = "''abc''" and k = 0 and m = "[]"
        and cfg = "\<lparr>nPort = 40061, nTtl = 1, bRecv = 0, sAddr = []\<rparr>"]
    by simp
qed

subsection \<open>Unknown flags and help\<close>

lemma parse_arg_unknown:
  "argv_1 a m = c \<Longrightarrow> c \<notin> {CHR ''a'', CHR ''p'', CHR ''r'', CHR ''t'', CHR ''?''} \<Longrightarrow>
   parse_arg n a m cfg = ([Printf ''Unknown command line argument '%c'\<newline>'' [AChar c]], Inr cfg)"
  by (simp add: parse_arg_def)

lemma parse_arg_help:
  "argv_1 a m = CHR ''?'' \<Longrightarrow> parse_arg n a m cfg = (displayUsage, Inr cfg)"
  by (simp add: parse_arg_def)

lemma parse_loop_only_unknown_or_help:
  "\<forall>(a, m)\<in>set (with_following as beyond). argv_1 a m \<notin> {CHR ''a'', CHR ''p'', CHR ''r'', CHR ''t''} \<Longrightarrow>
   snd (parse_loop n as beyond cfg) = Inr cfg"
proof (induction as)
  case Nil
  show ?case by simp
next
  case (Cons a as)
  then have c: "argv_1 a (following as beyond) \<notin> {CHR ''a'', CHR ''p'', CHR ''r'', CHR ''t''}"
    and as: "\<forall>(a, m)\<in>set (with_following as beyond). argv_1 a m \<notin> {CHR ''a'', CHR ''p'', CHR ''r'', CHR ''t''}"
    by simp_all
  from c have "\<exists>ev. parse_arg n a (following as beyond) cfg = (ev, Inr cfg)"
    by (simp add: parse_arg_def Let_def)
  then obtain ev where "parse_arg n a (following as beyond) cfg = (ev, Inr cfg)" ..
  with Cons.IH [OF as] show ?case by (simp add: case_prod_beta)
qed

lemma main_proceeds:
  assumes "snd (parseCommandLine argv (argv_beyond sys) 40061 1 [] 256) = Inr cfg"
  shows "Call_WSAStartup \<in> set (fst (main sys argv))"
proof -
  obtain ev where "parseCommandLine argv (argv_beyond sys) 40061 1 [] 256 = (ev, Inr cfg)"
    using assms by (cases "parseCommandLine argv (argv_beyond sys) 40061 1 [] 256") simp
  then show ?thesis
    by (simp add: main_def after_def initWinSock_def)
qed

text \<open>
  C8, amended. An argument read with a second character that is none of \<open>a\<close>, \<open>p\<close>, \<open>r\<close>,
  \<open>t\<close>, \<open>?\<close> prints the unknown-argument line, changes nothing, and the loop goes on with
  the arguments after it. An argument read with the second character \<open>?\<close> prints the usage
  text, changes nothing, and the loop goes on with the arguments after it just the same:
  help does not end the parse. Neither makes the parser fail; a command line of only such
  arguments gives the defaults, and \<open>main\<close> goes on to start Winsock.
\<close>

theorem unknown_flag_and_help_are_passed_over:
  "(argv_1 a (following rest beyond) = c
      \<and> c \<notin> {CHR ''a'', CHR ''p'', CHR ''r'', CHR ''t'', CHR ''?''} \<longrightarrow>
      parse_loop n (a # rest) beyond cfg =
        (Printf ''Unknown command line argument '%c'\<newline>'' [AChar c]
           # fst (parse_loop n rest beyond cfg),
         snd (parse_loop n rest beyond cfg)))
   \<and> (argv_1 a (following rest beyond) = CHR ''?'' \<longrightarrow>
      parse_loop n (a # rest) beyond cfg =
        (displayUsage @ fst (parse_loop n rest beyond cfg), snd (parse_loop n rest beyond cfg)))
   \<and> ((\<forall>(a, m)\<in>set (with_following (drop 1 argv) (argv_beyond sys)).
         argv_1 a m \<notin> {CHR ''a'', CHR ''p'', CHR ''r'', CHR ''t''}) \<longrightarrow>
      snd (parseCommandLine argv (argv_beyond sys) 40061 1 [] 256)
        = Inr \<lparr>nPort = 40061, nTtl = 1, bRecv = 0, sAddr = []\<rparr>
      \<and> Call_WSAStartup \<in> set (fst (main sys argv)))"
proof (intro conjI impI)
  assume "argv_1 a (following rest beyond) = c
      \<and> c \<notin> {CHR ''a'', CHR ''p'', CHR ''r'', CHR ''t'', CHR ''?''}"
  then have "parse_arg n a (following rest beyond) cfg
               = ([Printf ''Unknown command line argument '%c'\<newline>'' [AChar c]], Inr cfg)"
    by (simp add: parse_arg_unknown)
  then show "parse_loop n (a # rest) beyond cfg =
        (Printf ''Unknown command line argument '%c'\<newline>'' [AChar c]
           # fst (parse_loop n rest beyond cfg),
         snd (parse_loop n rest beyond cfg))"
    by (simp add: case_prod_beta)
next
  assume "argv_1 a (following rest beyond) = CHR ''?''"
  then have "parse_arg n a (following rest beyond) cfg = (displayUsage, Inr cfg)"
    by (rule parse_arg_help)
  then show "parse_loop n (a # rest) beyond cfg =
        (displayUsage @ fst (parse_loop n rest beyond cfg), snd (parse_loop n rest beyond cfg))"
    by (simp add: case_prod_beta)
next
  assume h: "\<forall>(a, m)\<in>set (with_following (drop 1 argv) (argv_beyond sys)).
         argv_1 a m \<notin> {CHR ''a'', CHR ''p'', CHR ''r'', CHR ''t''}"
  then show p: "snd (parseCommandLine argv (argv_beyond sys) 40061 1 [] 256)
        = Inr \<lparr>nPort = 40061, nTtl = 1, bRecv = 0, sAddr = []\<rparr>"
    unfolding parseCommandLine_def by (rule parse_loop_only_unknown_or_help)
  then show "Call_WSAStartup \<in> set (fst (main sys argv))" by (rule main_proceeds)
qed

text \<open>
  C8, as the claim has it, fails at one point: help does not cut the parse short. The \<open>-r\<close>
  that follows \<open>-?\<close> is still read and sets receiver mode.
\<close>

theorem help_does_not_stop_parsing:
  "snd (parseCommandLine [''broadcast'', ''-?'', ''-r''] [] 40061 1 [] 256)
     = Inr \<lparr>nPort = 40061, nTtl = 1, bRecv = 1, sAddr = []\<rparr>
   \<and> snd (parseCommandLine [''broadcast'', ''-?''] [] 40061 1 [] 256)
     = Inr \<lparr>nPort = 40061, nTtl = 1, bRecv = 0, sAddr = []\<rparr>"
  by (simp add: parse_eval)

theorem unknown_flag_and_help_are_passed_over_witness:
  "parse_loop 256 [''-z'', ''-r''] [] \<lparr>nPort = 40061, nTtl = 1, bRecv = 0, sAddr = []\<rparr>
     = ([Printf ''Unknown command line argument '%c'\<newline>'' [AChar (CHR ''z'')]],
        Inr \<lparr>nPort = 40061, nTtl = 1, bRecv = 1, sAddr = []\<rparr>)
   \<and> parse_loop 256 [''-?'', ''-r''] [] \<lparr>nPort = 40061, nTtl = 1, bRecv = 0, sAddr = []\<rparr>
     = (displayUsage, Inr \<lparr>nPort = 40061, nTtl = 1, bRecv = 1, sAddr = []\<rparr>)
   \<and> Call_WSAStartup \<in> set (fst (main quiet_os [''broadcast'', ''-z'', ''-?'', ''q'', '''']))"
proof -
  let ?cfg = "\<lparr>nPort = 40061, nTtl = 1, bRecv = 0, sAddr = []\<rparr>"
  have r: "parse_loop 256 [''-r''] [] ?cfg = ([], Inr (?cfg\<lparr>bRecv := 1\<rparr>))"
    by (simp add: parse_arg_def)
  have u: "argv_1 ''-z'' (following [''-r''] []) = CHR ''z''
             \<and> CHR ''z'' \<notin> {CHR ''a'', CHR ''p'', CHR ''r'', CHR ''t'', CHR ''?''}"
    by simp
  have h: "argv_1 ''-?'' (following [''-r''] []) = CHR ''?''" by simp
  have a: "\<forall>(a, m)\<in>set (with_following (drop 1 [''broadcast'', ''-z'', ''-?'', ''q'', '''']) (argv_beyond quiet_os)).
             argv_1 a m \<notin> {CHR ''a'', CHR ''p'', CHR ''r'', CHR ''t''}"
    by (simp add: following_def quiet_os_def)
  show ?thesis
    using u h a r
      unknown_flag_and_help_are_passed_over [where a = "''-z''" and c = "CHR ''z''" and rest = "[''-r'']" and n = 256 and cfg = ?cfg
          and beyond = "[]" and argv = "[''broadcast'', ''-z'', ''-?'', ''q'', '''']" and sys = quiet_os]
      unknown_flag_and_help_are_passed_over [where a = "''-?''" and c = "CHR ''?''" and rest = "[''-r'']" and n = 256 and cfg = ?cfg
          and beyond = "[]" and argv = "[''broadcast'', ''-z'', ''-?'', ''q'', '''']" and sys = quiet_os]
    by simp
qed

subsection \<open>The invariant of the configuration\<close>

lemma parse_arg_invariant:
  assumes "parse_arg n a m cfg = (ev, Inr cfg')" and "override_valid a m" and "config_invariant cfg"
  shows "config_invariant cfg'"
  using assms
  by (auto simp add: parse_arg_def override_valid_def config_invariant_def strcpy_s_def Let_def
      split: if_splits)

lemma parse_arg_storage:
  assumes "parse_arg n a m cfg = (ev, Inr cfg')" and "within_storage n cfg"
  shows "within_storage n cfg'"
  using assms strtol_range [of "argv_2 a m"]
  by (auto simp add: parse_arg_def within_storage_def strcpy_s_def Let_def split: if_splits)

lemma parse_loop_invariant:
  "snd (parse_loop n as beyond cfg) = Inr cfg' \<Longrightarrow>
   \<forall>(a, m)\<in>set (with_following as beyond). override_valid a m \<Longrightarrow>
   config_invariant cfg \<Longrightarrow> config_invariant cfg'"
proof (induction as arbitrary: cfg)
  case Nil
  then show ?case by simp
next
  case (Cons a as)
  from Cons.prems(1) obtain ev cfg1 where
    1: "parse_arg n a (following as beyond) cfg = (ev, Inr cfg1)"
    and 2: "snd (parse_loop n as beyond cfg1) = Inr cfg'"
    by (rule parse_loop_Inr)
  from Cons.prems(2) have a: "override_valid a (following as beyond)"
    and as: "\<forall>(a, m)\<in>set (with_following as beyond). override_valid a m" by simp_all
  from 1 a Cons.prems(3) have "config_invariant cfg1" by (rule parse_arg_invariant)
  with 2 as show ?case by (rule Cons.IH)
qed

lemma parse_loop_storage:
  "snd (parse_loop n as beyond cfg) = Inr cfg' \<Longrightarrow> within_storage n cfg \<Longrightarrow> within_storage n cfg'"
proof (induction as arbitrary: cfg)
  case Nil
  then show ?case by simp
next
  case (Cons a as)
  from Cons.prems(1) obtain ev cfg1 where
    1: "parse_arg n a (following as beyond) cfg = (ev, Inr cfg1)"
    and 2: "snd (parse_loop n as beyond cfg1) = Inr cfg'"
    by (rule parse_loop_Inr)
  from 1 Cons.prems(2) have "within_storage n cfg1" by (rule parse_arg_storage)
  with 2 show ?case by (rule Cons.IH)
qed

text \<open>
  C5, amended. The parser checks nothing, so the invariant holds only as far as the
  arguments carry it. For every argument list and every content of the memory after it:
  when every argument that is read as a port override has a number from 0 to 65535, every
  argument read as a hop-limit override a number that is not negative and every argument
  read as an address override a text that is empty or a dotted quad, the configuration
  that \<open>main\<close> gets satisfies the invariant. An empty argument counts as it is read, with
  the argument after it as its text. For every argument list that is parsed to the end,
  the port and the hop limit are within a 32-bit \<open>long\<close> and the override is shorter than
  its 256 bytes.
\<close>

theorem invariant_only_as_far_as_arguments_carry_it:
  assumes "snd (parseCommandLine argv beyond 40061 1 [] 256) = Inr cfg"
  shows "within_storage 256 cfg
         \<and> ((\<forall>(a, m)\<in>set (with_following (drop 1 argv) beyond). override_valid a m)
              \<longrightarrow> config_invariant cfg)"
proof (intro conjI impI)
  have "within_storage 256 \<lparr>nPort = 40061, nTtl = 1, bRecv = 0, sAddr = []\<rparr>"
    by (simp add: within_storage_def LONG_MIN_def LONG_MAX_def)
  with assms show "within_storage 256 cfg"
    unfolding parseCommandLine_def by (rule parse_loop_storage)
next
  assume v: "\<forall>(a, m)\<in>set (with_following (drop 1 argv) beyond). override_valid a m"
  have "config_invariant \<lparr>nPort = 40061, nTtl = 1, bRecv = 0, sAddr = []\<rparr>"
    by (simp add: config_invariant_def valid_port_def)
  with assms v show "config_invariant cfg"
    unfolding parseCommandLine_def by (rule parse_loop_invariant)
qed

lemma is_ipv4_example: "is_ipv4 ''10.0.0.255''"
  by (simp add: is_ipv4_def is_octet_def isdigit_def decimal_def digit_val_def)

lemma not_ipv4_example: "\<not> is_ipv4 ''xyz''"
  by (simp add: is_ipv4_def)

text \<open>
  C5, as the claim has it, fails: \<open>-t-5\<close> gives a negative hop limit, \<open>-p70000\<close> a port that
  is no 16-bit value, \<open>-axyz\<close> an override that is no address.
\<close>

theorem parsed_configuration_breaks_invariant:
  "snd (parseCommandLine [''broadcast'', ''-t-5'', ''-p70000'', ''-axyz''] [] 40061 1 [] 256)
     = Inr \<lparr>nPort = 70000, nTtl = - 5, bRecv = 0, sAddr = ''xyz''\<rparr>
   \<and> \<not> 0 \<le> nTtl \<lparr>nPort = 70000, nTtl = - 5, bRecv = 0, sAddr = ''xyz''\<rparr>
   \<and> \<not> valid_port (nPort \<lparr>nPort = 70000, nTtl = - 5, bRecv = 0, sAddr = ''xyz''\<rparr>)
   \<and> \<not> is_ipv4 (sAddr \<lparr>nPort = 70000, nTtl = - 5, bRecv = 0, sAddr = ''xyz''\<rparr>)
   \<and> \<not> config_invariant \<lparr>nPort = 70000, nTtl = - 5, bRecv = 0, sAddr = ''xyz''\<rparr>"
  by (simp add: parse_eval strtol_eval config_invariant_def valid_port_def not_ipv4_example)

lemma empty_argument_example:
  "parseCommandLine [''broadcast'', '''', ''p70000''] [] 40061 1 [] 256
     = ([Printf ''Unknown command line argument '%c'\<newline>'' [AChar (CHR ''7'')]],
        Inr \<lparr>nPort = 70000, nTtl = 1, bRecv = 0, sAddr = []\<rparr>)
   \<and> \<not> override_valid '''' ''p70000''"
  by (simp add: parse_eval strtol_eval override_valid_def valid_port_def)

theorem invariant_only_as_far_as_arguments_carry_it_witness:
  "within_storage 256 \<lparr>nPort = 41000, nTtl = 3, bRecv = 1, sAddr = ''10.0.0.255''\<rparr>
   \<and> config_invariant \<lparr>nPort = 41000, nTtl = 3, bRecv = 1, sAddr = ''10.0.0.255''\<rparr>"
proof -
  let ?argv = "[''broadcast'', ''-t3'', ''-p41000'', ''-a10.0.0.255'', '''', ''-r'']"
  have p: "snd (parseCommandLine ?argv [] 40061 1 [] 256)
             = Inr \<lparr>nPort = 41000, nTtl = 3, bRecv = 1, sAddr = ''10.0.0.255''\<rparr>"
    by (simp add: parse_eval strtol_eval)
  have v: "\<forall>(a, m)\<in>set (with_following (drop 1 ?argv) []). override_valid a m"
    by (simp add: override_valid_def following_def argv_2_def is_ipv4_example valid_port_def strtol_eval)
  show ?thesis using invariant_only_as_far_as_arguments_carry_it [OF p] v by simp
qed

subsection \<open>The broadcaster\<close>

lemma bytes_int_int_bytes: "bytes_int (int_bytes v) = v"
  unfolding bytes_int_def int_bytes_def
  apply simp
  apply (rule bit_word_eqI)
  apply (auto simp add: bit_simps)
  subgoal for n by (cases "24 \<le> n") simp_all
  done

lemma ntohs_htons: "ntohs (htons x) = word_of_int x"
  unfolding ntohs_def htons_def swap16_def
  by (rule bit_word_eqI) (auto simp add: bit_simps)

lemma htonl_broadcast: "htonl INADDR_BROADCAST = 0xFFFFFFFF"
  by (simp add: htonl_def INADDR_BROADCAST_def)

lemma upt_Suc_shift: "[0..<Suc n] = 0 # map Suc [0..<n]"
  by (simp add: upt_conv_Cons map_Suc_upt del: upt_Suc)

lemma broadcast_loop_ok:
  "0 \<le> r \<Longrightarrow> broadcast_loop dst v (r # rs) =
     ([Printf ''Sending %d\<newline>'' [AInt (sint v)], Call_sendto (int_bytes v) dst, Call_Sleep 5000]
        @ fst (broadcast_loop dst (v + 1) rs),
      snd (broadcast_loop dst (v + 1) rs))"
  by (simp add: case_prod_beta)

lemma broadcast_loop_failed:
  "r < 0 \<Longrightarrow> broadcast_loop dst v (r # rs) =
     ([Printf ''Sending %d\<newline>'' [AInt (sint v)], Call_sendto (int_bytes v) dst,
       Perror ''Sending broadcast''], Exited 1)"
  by simp

lemma sent_values_loop:
  "\<forall>r\<in>set oks. 0 \<le> r \<Longrightarrow>
   sent_values (fst (broadcast_loop dst v (oks @ rest))) =
     map (\<lambda>i. v + word_of_nat i) [0..<length oks]
       @ sent_values (fst (broadcast_loop dst (v + word_of_nat (length oks)) rest))"
proof (induction oks arbitrary: v)
  case Nil
  show ?case by simp
next
  case (Cons r oks)
  then have r: "0 \<le> r" and oks: "\<forall>r\<in>set oks. 0 \<le> r" by simp_all
  have "sent_values (fst (broadcast_loop dst v ((r # oks) @ rest))) =
          v # sent_values (fst (broadcast_loop dst (v + 1) (oks @ rest)))"
    using r by (simp add: case_prod_beta bytes_int_int_bytes)
  also have "\<dots> = v # map (\<lambda>i. v + 1 + word_of_nat i) [0..<length oks]
       @ sent_values (fst (broadcast_loop dst (v + 1 + word_of_nat (length oks)) rest))"
    using Cons.IH [OF oks, of "v + 1"] by simp
  also have "\<dots> = map (\<lambda>i. v + word_of_nat i) [0..<length (r # oks)]
       @ sent_values (fst (broadcast_loop dst (v + word_of_nat (length (r # oks))) rest))"
    by (simp add: upt_Suc_shift comp_def ac_simps del: upt_Suc)
  finally show ?case .
qed

lemma sends_and_sleeps_loop:
  "\<forall>r\<in>set oks. 0 \<le> r \<Longrightarrow>
   sends_and_sleeps (fst (broadcast_loop dst v (oks @ rest))) =
     concat (map (\<lambda>i. [Inl (int_bytes (v + word_of_nat i)), Inr 5000]) [0..<length oks])
       @ sends_and_sleeps (fst (broadcast_loop dst (v + word_of_nat (length oks)) rest))"
proof (induction oks arbitrary: v)
  case Nil
  show ?case by simp
next
  case (Cons r oks)
  then have r: "0 \<le> r" and oks: "\<forall>r\<in>set oks. 0 \<le> r" by simp_all
  have "sends_and_sleeps (fst (broadcast_loop dst v ((r # oks) @ rest))) =
          Inl (int_bytes v) # Inr 5000 # sends_and_sleeps (fst (broadcast_loop dst (v + 1) (oks @ rest)))"
    using r by (simp add: case_prod_beta)
  also have "\<dots> = Inl (int_bytes v) # Inr 5000 #
       concat (map (\<lambda>i. [Inl (int_bytes (v + 1 + word_of_nat i)), Inr 5000]) [0..<length oks])
       @ sends_and_sleeps (fst (broadcast_loop dst (v + 1 + word_of_nat (length oks)) rest))"
    using Cons.IH [OF oks, of "v + 1"] by simp
  also have "\<dots> = concat (map (\<lambda>i. [Inl (int_bytes (v + word_of_nat i)), Inr 5000]) [0..<length (r # oks)])
       @ sends_and_sleeps (fst (broadcast_loop dst (v + word_of_nat (length (r # oks))) rest))"
    by (simp add: upt_Suc_shift comp_def ac_simps del: upt_Suc)
  finally show ?case .
qed

lemma broadcast_outcome_after_oks:
  "\<forall>r\<in>set oks. 0 \<le> r \<Longrightarrow>
   snd (broadcast_loop dst v (oks @ rest)) = snd (broadcast_loop dst (v + word_of_nat (length oks)) rest)"
proof (induction oks arbitrary: v)
  case Nil
  show ?case by simp
next
  case (Cons r oks)
  then have r: "0 \<le> r" and oks: "\<forall>r\<in>set oks. 0 \<le> r" by simp_all
  show ?case using r Cons.IH [OF oks, of "v + 1"]
    by (simp add: case_prod_beta ac_simps)
qed

lemma broadcast_events:
  "fst (broadcast ia port addr rs) =
     (if addr = [] then [] else [Call_inet_addr addr]) @
     Printf ''Broadcast to %s:%d\<newline>''
       [AStr (inet_ntoa (if addr = [] then htonl INADDR_BROADCAST else ia addr)),
        AInt (uint (ntohs (htons port)))] #
     fst (broadcast_loop \<lparr>sin_addr = (if addr = [] then htonl INADDR_BROADCAST else ia addr),
                          sin_port = htons port\<rparr> 0 rs)"
  by (simp add: broadcast_def case_prod_beta Let_def)

lemma broadcast_outcome:
  "snd (broadcast ia port addr rs) =
     snd (broadcast_loop \<lparr>sin_addr = (if addr = [] then htonl INADDR_BROADCAST else ia addr),
                          sin_port = htons port\<rparr> 0 rs)"
  by (simp add: broadcast_def case_prod_beta Let_def)

lemma sent_values_broadcast:
  "sent_values (fst (broadcast ia port addr rs)) =
     sent_values (fst (broadcast_loop \<lparr>sin_addr = (if addr = [] then htonl INADDR_BROADCAST else ia addr),
                          sin_port = htons port\<rparr> 0 rs))"
  by (simp add: broadcast_events)

lemma sends_and_sleeps_broadcast:
  "sends_and_sleeps (fst (broadcast ia port addr rs)) =
     sends_and_sleeps (fst (broadcast_loop \<lparr>sin_addr = (if addr = [] then htonl INADDR_BROADCAST else ia addr),
                          sin_port = htons port\<rparr> 0 rs))"
  by (simp add: broadcast_events)

lemma map_unat_upt: "n \<le> 2 ^ 32 \<Longrightarrow> map (\<lambda>i. unat (word_of_nat i :: 32 word)) [0..<n] = [0..<n]"
  by (rule map_idI) (simp add: unat_of_nat)

text \<open>
  C1. The counter starts at 0. While the calls of \<open>sendto\<close> succeed (\<open>oks\<close> are their return
  values, none negative), the values sent are 0, 1, 2, ... in this order, one per call,
  as 32-bit values (a counter that passed the 32 bits would wrap; up to \<open>2 ^ 32\<close> calls
  the values read as numbers are exactly \<open>0, ..., N - 1\<close>), and every such call is followed
  by \<open>Sleep(5000)\<close> before the next one. The counter moves only after a call that
  succeeded: when the next call fails, it carried the number of calls that succeeded
  before it, and nothing is sent after it.
\<close>

theorem broadcast_sends_successive_values:
  assumes "\<forall>r\<in>set oks. 0 \<le> r"
  shows "take (length oks) (sent_values (fst (broadcast ia port addr (oks @ rest))))
           = map word_of_nat [0..<length oks]
       \<and> take (2 * length oks) (sends_and_sleeps (fst (broadcast ia port addr (oks @ rest))))
           = concat (map (\<lambda>i. [Inl (int_bytes (word_of_nat i)), Inr 5000]) [0..<length oks])
       \<and> (r < 0 \<longrightarrow>
            sent_values (fst (broadcast ia port addr (oks @ r # rest)))
              = map word_of_nat [0..<Suc (length oks)]
            \<and> snd (broadcast ia port addr (oks @ r # rest)) = Exited 1)
       \<and> (length oks \<le> 2 ^ 32 \<longrightarrow>
            map unat (take (length oks) (sent_values (fst (broadcast ia port addr (oks @ rest)))))
              = [0..<length oks])"
proof -
  let ?d = "\<lparr>sin_addr = (if addr = [] then htonl INADDR_BROADCAST else ia addr), sin_port = htons port\<rparr>"
  have v: "sent_values (fst (broadcast ia port addr (oks @ rs))) =
             map word_of_nat [0..<length oks]
               @ sent_values (fst (broadcast_loop ?d (word_of_nat (length oks)) rs))" for rs
    using sent_values_loop [OF assms, of ?d 0 rs] by (simp add: sent_values_broadcast)
  have 1: "take (length oks) (sent_values (fst (broadcast ia port addr (oks @ rest))))
           = map word_of_nat [0..<length oks]"
    by (simp add: v)
  have w: "sends_and_sleeps (fst (broadcast ia port addr (oks @ rest))) =
             concat (map (\<lambda>i. [Inl (int_bytes (word_of_nat i)), Inr 5000]) [0..<length oks])
               @ sends_and_sleeps (fst (broadcast_loop ?d (word_of_nat (length oks)) rest))"
    using sends_and_sleeps_loop [OF assms, of ?d 0 rest] by (simp add: sends_and_sleeps_broadcast)
  have l: "length (concat (map (\<lambda>i. [Inl (int_bytes (word_of_nat i :: 32 word)), Inr (5000::nat)]) [0..<n])) = 2 * n" for n
    by (induction n) simp_all
  have 2: "take (2 * length oks) (sends_and_sleeps (fst (broadcast ia port addr (oks @ rest))))
           = concat (map (\<lambda>i. [Inl (int_bytes (word_of_nat i)), Inr 5000]) [0..<length oks])"
    by (simp add: w l)
  have 3: "sent_values (fst (broadcast ia port addr (oks @ r # rest)))
              = map word_of_nat [0..<Suc (length oks)]
            \<and> snd (broadcast ia port addr (oks @ r # rest)) = Exited 1" if "r < 0"
    using that broadcast_outcome_after_oks [OF assms, of ?d 0 "r # rest"]
    by (simp add: v [of "r # rest"] broadcast_outcome bytes_int_int_bytes)
  have 4: "map unat (take (length oks) (sent_values (fst (broadcast ia port addr (oks @ rest)))))
              = [0..<length oks]" if "length oks \<le> 2 ^ 32"
    using map_unat_upt [OF that] by (simp add: 1 comp_def)
  from 1 2 3 4 show ?thesis by blast
qed

theorem broadcast_sends_successive_values_witness:
  "sent_values (fst (broadcast (\<lambda>s. 0xFFFFFFFF) 40061 [] [4, 4, 4])) = [0, 1, 2]
   \<and> sends_and_sleeps (fst (broadcast (\<lambda>s. 0xFFFFFFFF) 40061 [] [4, 4, 4]))
       = [Inl [0, 0, 0, 0], Inr 5000, Inl [1, 0, 0, 0], Inr 5000, Inl [2, 0, 0, 0], Inr 5000]
   \<and> sent_values (fst (broadcast (\<lambda>s. 0xFFFFFFFF) 40061 [] [4, 4, 4, - 1, 4])) = [0, 1, 2, 3]
   \<and> snd (broadcast (\<lambda>s. 0xFFFFFFFF) 40061 [] [4, 4, 4, - 1, 4]) = Exited 1"
proof -
  have h: "\<forall>r\<in>set [4, 4, 4 :: int]. 0 \<le> r" by simp
  have n: "(- 1 :: int) < 0" by simp
  have u: "[0..<3] = [0, 1, 2]" "[0..<Suc 3] = [0, 1, 2, 3]" by (simp_all add: upt_rec)
  show ?thesis
    using n broadcast_sends_successive_values [OF h, where rest = "[]" and r = "- 1" and ia = "\<lambda>s. 0xFFFFFFFF" and port = 40061 and addr = "[]"]
      broadcast_sends_successive_values [OF h, where rest = "[4]" and r = "- 1" and ia = "\<lambda>s. 0xFFFFFFFF" and port = 40061 and addr = "[]"]
    by (simp add: u int_bytes_def broadcast_events)
qed

lemma destinations_loop:
  "destinations (fst (broadcast_loop dst v rs)) =
     replicate (length (destinations (fst (broadcast_loop dst v rs)))) dst"
proof (induction rs arbitrary: v)
  case Nil
  show ?case by simp
next
  case (Cons r rs)
  show ?case
  proof (cases "r < 0")
    case True
    then show ?thesis by simp
  next
    case False
    then show ?thesis using Cons [of "v + 1"] by (simp add: case_prod_beta)
  qed
qed

lemma resolutions_loop: "resolutions (fst (broadcast_loop dst v rs)) = []"
proof (induction rs arbitrary: v)
  case Nil
  show ?case by simp
next
  case (Cons r rs)
  show ?case
  proof (cases "r < 0")
    case True
    then show ?thesis by simp
  next
    case False
    then show ?thesis using Cons [of "v + 1"] by (simp add: case_prod_beta)
  qed
qed

lemma destinations_count:
  "\<forall>r\<in>set oks. 0 \<le> r \<Longrightarrow> length (destinations (fst (broadcast_loop dst v oks))) = length oks"
proof (induction oks arbitrary: v)
  case Nil
  show ?case by simp
next
  case (Cons r oks)
  then show ?case by (simp add: case_prod_beta)
qed

lemma uint_word_of_int_port: "0 \<le> p \<Longrightarrow> p \<le> 65535 \<Longrightarrow> uint (word_of_int p :: 16 word) = p"
  by (simp add: uint_word_of_int)

text \<open>
  C2. The destination is fixed before the loop and is the same in every call of \<open>sendto\<close>:
  the address that \<open>inet_addr\<close> gives for the override when the override is not empty,
  whatever the interfaces of the machine, and the all-ones address \<open>INADDR_BROADCAST\<close>
  when it is empty; the port is \<open>htons\<close> of the configured port, which reads back as the
  configured port when that is a port. \<open>inet_addr\<close> is called once, as the first thing, when
  there is an override and never otherwise, however many iterations follow.
\<close>

theorem destination_is_resolved_once_and_fixed:
  "destinations (fst (broadcast ia port addr rs)) =
     replicate (length (destinations (fst (broadcast ia port addr rs))))
       \<lparr>sin_addr = (if addr = [] then INADDR_BROADCAST else ia addr), sin_port = htons port\<rparr>
   \<and> resolutions (fst (broadcast ia port addr rs)) = (if addr = [] then [] else [addr])
   \<and> take (length (resolutions (fst (broadcast ia port addr rs)))) (fst (broadcast ia port addr rs))
       = map Call_inet_addr (resolutions (fst (broadcast ia port addr rs)))
   \<and> ((\<forall>r\<in>set rs. 0 \<le> r) \<longrightarrow> length (destinations (fst (broadcast ia port addr rs))) = length rs)
   \<and> (0 \<le> port \<and> port \<le> 65535 \<longrightarrow> uint (ntohs (htons port)) = port)"
proof -
  let ?d = "\<lparr>sin_addr = (if addr = [] then htonl INADDR_BROADCAST else ia addr), sin_port = htons port\<rparr>"
  have e: "?d = \<lparr>sin_addr = (if addr = [] then INADDR_BROADCAST else ia addr), sin_port = htons port\<rparr>"
    by (simp add: htonl_def INADDR_BROADCAST_def)
  have d: "destinations (fst (broadcast ia port addr rs)) = destinations (fst (broadcast_loop ?d 0 rs))"
    by (simp add: broadcast_events)
  have 1: "destinations (fst (broadcast ia port addr rs)) =
     replicate (length (destinations (fst (broadcast ia port addr rs))))
       \<lparr>sin_addr = (if addr = [] then INADDR_BROADCAST else ia addr), sin_port = htons port\<rparr>"
    unfolding d using destinations_loop [of ?d 0 rs] unfolding e .
  have 2: "resolutions (fst (broadcast ia port addr rs)) = (if addr = [] then [] else [addr])"
    by (simp add: broadcast_events resolutions_loop)
  have 3: "take (length (resolutions (fst (broadcast ia port addr rs)))) (fst (broadcast ia port addr rs))
       = map Call_inet_addr (resolutions (fst (broadcast ia port addr rs)))"
    unfolding 2 by (simp add: broadcast_events)
  have 4: "length (destinations (fst (broadcast ia port addr rs))) = length rs" if "\<forall>r\<in>set rs. 0 \<le> r"
    unfolding d using that by (rule destinations_count)
  have 5: "uint (ntohs (htons port)) = port" if "0 \<le> port \<and> port \<le> 65535"
    using that by (simp add: ntohs_htons uint_word_of_int_port)
  from 1 2 3 4 5 show ?thesis by blast
qed

theorem destination_is_resolved_once_and_fixed_witness:
  "destinations (fst (broadcast (\<lambda>s. 0xFF32A8C0) 40061 ''192.168.50.255'' [4, 4]))
     = [\<lparr>sin_addr = 0xFF32A8C0, sin_port = htons 40061\<rparr>, \<lparr>sin_addr = 0xFF32A8C0, sin_port = htons 40061\<rparr>]
   \<and> destinations (fst (broadcast (\<lambda>s. 0xFF32A8C0) 40061 [] [4, 4]))
     = [\<lparr>sin_addr = 0xFFFFFFFF, sin_port = htons 40061\<rparr>, \<lparr>sin_addr = 0xFFFFFFFF, sin_port = htons 40061\<rparr>]
   \<and> resolutions (fst (broadcast (\<lambda>s. 0xFF32A8C0) 40061 ''192.168.50.255'' [4, 4])) = [''192.168.50.255'']
   \<and> uint (ntohs (htons 40061)) = 40061"
proof -
  have h: "\<forall>r\<in>set [4, 4 :: int]. 0 \<le> r" by simp
  have p: "(0 :: int) \<le> 40061 \<and> (40061 :: int) \<le> 65535" by simp
  show ?thesis
    using h p
      destination_is_resolved_once_and_fixed [where ia = "\<lambda>s. 0xFF32A8C0" and port = 40061 and addr = "''192.168.50.255''" and rs = "[4, 4]"]
      destination_is_resolved_once_and_fixed [where ia = "\<lambda>s. 0xFF32A8C0" and port = 40061 and addr = "[]" and rs = "[4, 4]"]
    by (simp add: broadcast_events htonl_def INADDR_BROADCAST_def)
qed

subsection \<open>How the loops end\<close>


lemma broadcast_loop_outcome:
  "snd (broadcast_loop dst v rs) = (if \<forall>r\<in>set rs. 0 \<le> r then Stopped else Exited 1)"
proof (induction rs arbitrary: v)
  case Nil
  show ?case by simp
next
  case (Cons r rs)
  show ?case
  proof (cases "r < 0")
    case True
    then show ?thesis by auto
  next
    case False
    then show ?thesis using Cons [of "v + 1"] by (simp add: case_prod_beta)
  qed
qed

lemma recvfrom_result:
  "fst (recvfrom a buf from 4) < 0 \<longleftrightarrow> \<not> accepted a"
  by (cases a) (simp_all add: recvfrom_def accepted_def SOCKET_ERROR_def)

lemma receive_loop_outcome:
  "snd (receive_loop buf dst as) = (if \<forall>a\<in>set as. accepted a then Stopped else Exited 1)"
proof (induction as arbitrary: buf dst)
  case Nil
  show ?case by simp
next
  case (Cons a as)
  obtain res buf' dst' err where r: "recvfrom a buf dst 4 = (res, buf', dst', err)"
    by (cases "recvfrom a buf dst 4") auto
  then have acc: "res < 0 \<longleftrightarrow> \<not> accepted a"
    using recvfrom_result [of a buf dst] by simp
  show ?case
  proof (cases "res < 0")
    case True
    with r acc show ?thesis by simp
  next
    case False
    with r acc show ?thesis using Cons [of buf' dst'] by (simp add: case_prod_beta)
  qed
qed

lemma receive_outcome:
  "snd (receive d0 as) = (if \<forall>a\<in>set as. accepted a then Stopped else Exited 1)"
  by (simp add: receive_def case_prod_beta receive_loop_outcome)

lemma broadcast_outcome_cases:
  "snd (broadcast ia port addr rs) = (if \<forall>r\<in>set rs. 0 \<le> r then Stopped else Exited 1)"
  by (simp add: broadcast_outcome broadcast_loop_outcome)

lemma loop_not_Returned:
  "snd l = Stopped \<or> snd l = Exited 1 \<Longrightarrow>
   snd (case l of (ev_l, Returned) \<Rightarrow> (ev_l, Exited 0) | (ev_l, out) \<Rightarrow> (ev_l, out)) = snd l"
  by (cases l) auto

lemma main_outcome:
  "(\<exists>f. snd (main sys argv) = Crashed f) \<or> snd (main sys argv) = Stopped
   \<or> snd (main sys argv) = Exited 1"
proof (cases "parseCommandLine argv (argv_beyond sys) 40061 1 [] 256")
  case (Pair ev r)
  show ?thesis
  proof (cases r)
    case (Inl f)
    with Pair show ?thesis by (simp add: main_def)
  next
    case (Inr cfg)
    let ?l = "if bRecv cfg \<noteq> 0 then receive (receive_dst0 sys) (arrivals sys)
              else broadcast (inet_addr_f sys) (nPort cfg) (sAddr cfg) (sendto_rs sys)"
    have l: "snd ?l = Stopped \<or> snd ?l = Exited 1"
      by (simp add: receive_outcome broadcast_outcome_cases)
    have "snd (case ?l of (ev_l, Returned) \<Rightarrow> (ev_l, Exited 0) | (ev_l, out) \<Rightarrow> (ev_l, out)) = snd ?l"
      using l by (rule loop_not_Returned)
    with l have "snd (case ?l of (ev_l, Returned) \<Rightarrow> (ev_l, Exited 0) | (ev_l, out) \<Rightarrow> (ev_l, out))
                   \<in> {Stopped, Exited 1}"
      by auto
    then show ?thesis
      unfolding main_def Pair Inr
      by (auto simp add: after_def initWinSock_def)
  qed
qed

text \<open>
  C9. Neither loop returns. \<open>broadcast\<close> goes on for as long as \<open>sendto\<close> succeeds and
  \<open>receive\<close> for as long as \<open>recvfrom\<close> succeeds: with calls that all succeed the process
  is still in its loop when it is stopped from outside, and the first call that fails
  ends it with \<open>exit(1)\<close>. So a run of \<open>main\<close> ends in a fault of the parser (before any
  loop), is stopped from outside, or exits with status 1; the \<open>exit(0)\<close> after the
  dispatch is never reached.
\<close>

theorem loops_never_return:
  "snd (broadcast ia port addr rs) = (if \<forall>r\<in>set rs. 0 \<le> r then Stopped else Exited 1)
   \<and> snd (receive uninit as) = (if \<forall>a\<in>set as. accepted a then Stopped else Exited 1)
   \<and> snd (broadcast ia port addr rs) \<noteq> Returned
   \<and> snd (receive uninit as) \<noteq> Returned
   \<and> ((\<exists>f. snd (main sys argv) = Crashed f) \<or> snd (main sys argv) = Stopped
        \<or> snd (main sys argv) = Exited 1)
   \<and> snd (main sys argv) \<noteq> Exited 0
   \<and> snd (main sys argv) \<noteq> Returned"
proof -
  have m: "(\<exists>f. snd (main sys argv) = Crashed f) \<or> snd (main sys argv) = Stopped
        \<or> snd (main sys argv) = Exited 1"
    by (rule main_outcome)
  then have "snd (main sys argv) \<noteq> Exited 0 \<and> snd (main sys argv) \<noteq> Returned"
    by auto
  with m show ?thesis
    by (simp add: receive_outcome broadcast_outcome_cases)
qed

theorem loops_never_return_witness:
  "snd (broadcast (\<lambda>s. 0xFFFFFFFF) 40061 [] [4, 4]) = Stopped
   \<and> snd (broadcast (\<lambda>s. 0xFFFFFFFF) 40061 [] [4, - 1, 4]) = Exited 1
   \<and> snd (receive \<lparr>sin_addr = 0, sin_port = 0\<rparr>
            [Datagram [1, 0, 0, 0] \<lparr>sin_addr = 0x0701A8C0, sin_port = 0x3930\<rparr>]) = Stopped
   \<and> snd (receive \<lparr>sin_addr = 0, sin_port = 0\<rparr> [Recv_error 10054]) = Exited 1
   \<and> snd (main quiet_os [''broadcast'', ''-r'']) = Stopped"
proof -
  have b: "\<forall>r\<in>set [4, 4 :: int]. 0 \<le> r" "\<not> (\<forall>r\<in>set [4, - 1, 4 :: int]. 0 \<le> r)" by simp_all
  have a: "\<forall>a\<in>set [Datagram [1, 0, 0, 0] \<lparr>sin_addr = 0x0701A8C0, sin_port = 0x3930\<rparr>]. accepted a"
    "\<not> (\<forall>a\<in>set [Recv_error 10054]. accepted a)"
    by (simp_all add: accepted_def)
  have m: "snd (main quiet_os [''broadcast'', ''-r'']) = Stopped"
    by (simp add: main_def parse_eval after_def initWinSock_def quiet_os_def receive_def)
  show ?thesis
    using a b m
      loops_never_return [where ia = "\<lambda>s. 0xFFFFFFFF" and port = 40061 and addr = "[]" and rs = "[4, 4]"
          and uninit = "\<lparr>sin_addr = 0, sin_port = 0\<rparr>" 
          and as = "[Datagram [1, 0, 0, 0] \<lparr>sin_addr = 0x0701A8C0, sin_port = 0x3930\<rparr>]"
          and sys = quiet_os and argv = "[''broadcast'', ''-r'']"]
      loops_never_return [where ia = "\<lambda>s. 0xFFFFFFFF" and port = 40061 and addr = "[]" and rs = "[4, - 1, 4]"
          and uninit = "\<lparr>sin_addr = 0, sin_port = 0\<rparr>" and as = "[Recv_error 10054]"
          and sys = quiet_os and argv = "[''broadcast'', ''-r'']"]
    by simp
qed

subsection \<open>The receiver\<close>

lemma receive_loop_fits:
  "length p \<le> 4 \<Longrightarrow>
   receive_loop buf dst (Datagram p src # rest) =
     ([Call_recvfrom 4,
       Printf ''Received %d from '%s'\<newline>''
         [AInt (sint (bytes_int (p @ drop (length p) buf))), AStr (inet_ntoa (sin_addr src))]]
        @ fst (receive_loop (p @ drop (length p) buf) src rest),
      snd (receive_loop (p @ drop (length p) buf) src rest))"
  by (simp add: recvfrom_def case_prod_beta)

lemma receive_loop_too_long:
  "4 < length p \<Longrightarrow>
   receive_loop buf dst (Datagram p src # rest) =
     ([Call_recvfrom 4, Printf ''recvfrom failed with error %d\<newline>'' [AInt WSAEMSGSIZE]], Exited 1)"
  by (simp add: recvfrom_def SOCKET_ERROR_def)

lemma sint_by_uint:
  "sint (w :: 32 word) = (if uint w < 2 ^ 31 then uint w else uint w - 2 ^ 32)"
proof -
  have r: "- 2147483648 \<le> sint w" "sint w < 2147483648"
    using sint_greater_eq [of w] sint_less [of w] by simp_all
  have u: "uint w = sint w mod 4294967296"
    using uint_sint [of w] by (simp add: take_bit_eq_mod)
  show ?thesis
  proof (cases "0 \<le> sint w")
    case True
    with r u have "uint w = sint w" by simp
    with r show ?thesis by simp
  next
    case False
    with r have "(sint w + 4294967296) mod 4294967296 = sint w + 4294967296"
      by (intro mod_pos_pos_trivial) simp_all
    then have "uint w = sint w + 4294967296" using u by simp
    with False r show ?thesis by simp
  qed
qed

lemma length_int_bytes: "length (int_bytes v) = 4"
  by (simp add: int_bytes_def)

lemma reports_receive_loop:
  "\<forall>d\<in>set ds. length (fst d) = 4 \<Longrightarrow> length buf = 4 \<Longrightarrow>
   reports (fst (receive_loop buf dst (map (\<lambda>(p, src). Datagram p src) ds))) =
     map (\<lambda>(p, src). (sint (bytes_int p), inet_ntoa (sin_addr src))) ds"
proof (induction ds arbitrary: buf dst)
  case Nil
  show ?case by simp
next
  case (Cons d ds)
  obtain p src where d: "d = (p, src)" by (cases d)
  with Cons.prems have p: "length p = 4" and ds: "\<forall>d\<in>set ds. length (fst d) = 4" by simp_all
  show ?case
    using Cons.IH [OF ds, of p src] p Cons.prems(2)
    by (simp add: d receive_loop_fits del: receive_loop.simps)
qed

text \<open>
  C3, amended. A datagram of exactly four bytes is reported with the signed 32-bit \<open>int\<close>
  that these four bytes are in memory, and with the text of the IPv4 address of its
  source; the UDP port of the source is not reported. The value reported is the unsigned
  number of the payload when that is below \<open>2 ^ 31\<close>, and that number less \<open>2 ^ 32\<close> from
  there on. This holds for every such datagram, whatever was received before it (\<open>buf\<close> and
  \<open>dst\<close> are what the locals hold, \<open>nValue\<close> having four bytes). So a datagram that carries
  the bytes of \<open>v\<close>, as \<open>broadcast\<close> sends them, is reported as the signed reading of \<open>v\<close>;
  and a run that receives only datagrams of four bytes reports, in order, the value and
  the source address of each.
\<close>

theorem receiver_reports_value_and_source_address:
  "(length p = 4 \<and> length buf = 4 \<longrightarrow>
      receive_loop buf dst (Datagram p src # rest) =
        ([Call_recvfrom 4,
          Printf ''Received %d from '%s'\<newline>''
            [AInt (sint (bytes_int p)), AStr (inet_ntoa (sin_addr src))]]
           @ fst (receive_loop p src rest),
         snd (receive_loop p src rest)))
   \<and> (length buf = 4 \<longrightarrow>
      receive_loop buf dst (Datagram (int_bytes v) src # rest) =
        ([Call_recvfrom 4,
          Printf ''Received %d from '%s'\<newline>'' [AInt (sint v), AStr (inet_ntoa (sin_addr src))]]
           @ fst (receive_loop (int_bytes v) src rest),
         snd (receive_loop (int_bytes v) src rest)))
   \<and> ((\<forall>d\<in>set ds. length (fst d) = 4) \<longrightarrow>
      reports (fst (receive uninit (map (\<lambda>(p, src). Datagram p src) ds))) =
        map (\<lambda>(p, src). (sint (bytes_int p), inet_ntoa (sin_addr src))) ds)
   \<and> sint (bytes_int p) =
       (if uint (bytes_int p) < 2 ^ 31 then uint (bytes_int p) else uint (bytes_int p) - 2 ^ 32)"
proof (intro conjI impI)
  show "sint (bytes_int p) =
       (if uint (bytes_int p) < 2 ^ 31 then uint (bytes_int p) else uint (bytes_int p) - 2 ^ 32)"
    by (rule sint_by_uint)
next
  assume "length p = 4 \<and> length buf = 4"
  then show "receive_loop buf dst (Datagram p src # rest) =
        ([Call_recvfrom 4,
          Printf ''Received %d from '%s'\<newline>''
            [AInt (sint (bytes_int p)), AStr (inet_ntoa (sin_addr src))]]
           @ fst (receive_loop p src rest),
         snd (receive_loop p src rest))"
    using receive_loop_fits [of p buf dst src rest] by simp
next
  assume "length buf = 4"
  then show "receive_loop buf dst (Datagram (int_bytes v) src # rest) =
        ([Call_recvfrom 4,
          Printf ''Received %d from '%s'\<newline>'' [AInt (sint v), AStr (inet_ntoa (sin_addr src))]]
           @ fst (receive_loop (int_bytes v) src rest),
         snd (receive_loop (int_bytes v) src rest))"
    using receive_loop_fits [of "int_bytes v" buf dst src rest]
    by (simp add: length_int_bytes bytes_int_int_bytes del: receive_loop.simps)
next
  assume "\<forall>d\<in>set ds. length (fst d) = 4"
  then have "reports (fst (receive_loop (int_bytes 0) uninit (map (\<lambda>(p, src). Datagram p src) ds))) =
        map (\<lambda>(p, src). (sint (bytes_int p), inet_ntoa (sin_addr src))) ds"
    using length_int_bytes [of 0] by (rule reports_receive_loop)
  then show "reports (fst (receive uninit (map (\<lambda>(p, src). Datagram p src) ds))) =
        map (\<lambda>(p, src). (sint (bytes_int p), inet_ntoa (sin_addr src))) ds"
    by (simp add: receive_def case_prod_beta)
qed

lemma inet_ntoa_examples:
  "inet_ntoa 0x0701A8C0 = ''192.168.1.7''" "inet_ntoa 0x0801A8C0 = ''192.168.1.8''"
  by code_simp+

text \<open>
  C3, as the claim has it, fails twice. What is reported of the sender is the IPv4 address
  only, not the pair of address and port: two datagrams with the same payload from the
  same address and different ports give the same report, and the same events altogether.
  And the value reported is the signed reading of the payload: the payload \<open>FF FF FF FF\<close>,
  the unsigned number 4294967295, is reported as \<open>-1\<close>.
\<close>

theorem report_omits_source_port:
  "reports (fst (receive \<lparr>sin_addr = 0, sin_port = 0\<rparr>
       [Datagram [1, 0, 0, 0] \<lparr>sin_addr = 0x0701A8C0, sin_port = htons 1000\<rparr>]))
     = [(1, ''192.168.1.7'')]
   \<and> reports (fst (receive \<lparr>sin_addr = 0, sin_port = 0\<rparr>
       [Datagram [1, 0, 0, 0] \<lparr>sin_addr = 0x0701A8C0, sin_port = htons 2000\<rparr>]))
     = [(1, ''192.168.1.7'')]
   \<and> fst (receive \<lparr>sin_addr = 0, sin_port = 0\<rparr>
       [Datagram [1, 0, 0, 0] \<lparr>sin_addr = 0x0701A8C0, sin_port = htons 1000\<rparr>])
     = fst (receive \<lparr>sin_addr = 0, sin_port = 0\<rparr>
       [Datagram [1, 0, 0, 0] \<lparr>sin_addr = 0x0701A8C0, sin_port = htons 2000\<rparr>])
   \<and> ntohs (htons 1000) \<noteq> ntohs (htons 2000)
   \<and> reports (fst (receive \<lparr>sin_addr = 0, sin_port = 0\<rparr>
       [Datagram [255, 255, 255, 255] \<lparr>sin_addr = 0x0701A8C0, sin_port = htons 1000\<rparr>]))
     = [(- 1, ''192.168.1.7'')]
   \<and> uint (bytes_int [255, 255, 255, 255]) = 4294967295"
  by (simp add: receive_def recvfrom_def bytes_int_def inet_ntoa_examples ntohs_htons)

theorem receiver_reports_value_and_source_address_witness:
  "receive_loop [0, 0, 0, 0] \<lparr>sin_addr = 0, sin_port = 0\<rparr>
       [Datagram [7, 0, 0, 0] \<lparr>sin_addr = 0x0701A8C0, sin_port = htons 1000\<rparr>]
     = ([Call_recvfrom 4, Printf ''Received %d from '%s'\<newline>'' [AInt 7, AStr ''192.168.1.7'']], Stopped)
   \<and> reports (fst (receive \<lparr>sin_addr = 0, sin_port = 0\<rparr>
       [Datagram [7, 0, 0, 0] \<lparr>sin_addr = 0x0701A8C0, sin_port = htons 1000\<rparr>,
        Datagram [8, 0, 0, 0] \<lparr>sin_addr = 0x0801A8C0, sin_port = htons 2000\<rparr>]))
     = [(7, ''192.168.1.7''), (8, ''192.168.1.8'')]"
proof -
  let ?a = "\<lparr>sin_addr = 0x0701A8C0, sin_port = htons 1000\<rparr>"
  let ?b = "\<lparr>sin_addr = 0x0801A8C0, sin_port = htons 2000\<rparr>"
  have l: "length [7, 0, 0, 0 :: 8 word] = 4 \<and> length [0, 0, 0, 0 :: 8 word] = 4" by simp
  have ds: "\<forall>d\<in>set [([7, 0, 0, 0 :: 8 word], ?a), ([8, 0, 0, 0], ?b)]. length (fst d) = 4" by simp
  show ?thesis
    using l ds
      receiver_reports_value_and_source_address [where p = "[7, 0, 0, 0]" and buf = "[0, 0, 0, 0]" and dst = "\<lparr>sin_addr = 0, sin_port = 0\<rparr>"
          and src = ?a and rest = "[]" and v = 7
          and ds = "[([7, 0, 0, 0], ?a), ([8, 0, 0, 0], ?b)]" and uninit = "\<lparr>sin_addr = 0, sin_port = 0\<rparr>"]
    by (simp add: recvfrom_def bytes_int_def inet_ntoa_examples int_bytes_def receive_def)
qed

text \<open>
  C6, amended. A datagram longer than four bytes is not cut down in silence: Winsock's
  \<open>recvfrom\<close> fails on it with \<open>WSAEMSGSIZE\<close>, and \<open>receive\<close> prints the error and ends the
  process with \<open>exit(1)\<close>. A datagram shorter than four bytes is accepted: its bytes
  replace the first bytes of \<open>nValue\<close>, the other bytes of \<open>nValue\<close> stay as they were, the
  value is reported and the loop goes on.
\<close>

theorem oversized_is_fatal_and_short_is_accepted:
  "(4 < length p \<longrightarrow>
      receive_loop buf dst (Datagram p src # rest) =
        ([Call_recvfrom 4, Printf ''recvfrom failed with error %d\<newline>'' [AInt WSAEMSGSIZE]],
         Exited 1))
   \<and> (length p < 4 \<longrightarrow>
      receive_loop buf dst (Datagram p src # rest) =
        ([Call_recvfrom 4,
          Printf ''Received %d from '%s'\<newline>''
            [AInt (sint (bytes_int (p @ drop (length p) buf))), AStr (inet_ntoa (sin_addr src))]]
           @ fst (receive_loop (p @ drop (length p) buf) src rest),
         snd (receive_loop (p @ drop (length p) buf) src rest)))"
  using receive_loop_fits [of p buf dst src rest] receive_loop_too_long [of p buf dst src rest]
  by simp

text \<open>
  C6, as the claim has it, fails: a datagram of five bytes ends the receiver. The datagram
  after it is never received.
\<close>

theorem oversized_datagram_ends_receiver:
  "receive \<lparr>sin_addr = 0, sin_port = 0\<rparr>
     [Datagram [1, 2, 3, 4, 5] \<lparr>sin_addr = 0x0701A8C0, sin_port = htons 1000\<rparr>,
      Datagram [9, 0, 0, 0] \<lparr>sin_addr = 0x0701A8C0, sin_port = htons 1000\<rparr>]
   = ([Printf ''Waiting for data\<newline>'' [], Call_recvfrom 4,
       Printf ''recvfrom failed with error %d\<newline>'' [AInt 10040]], Exited 1)"
  by (simp add: receive_def recvfrom_def SOCKET_ERROR_def WSAEMSGSIZE_def)

theorem oversized_is_fatal_and_short_is_accepted_witness:
  "receive_loop [0, 0, 0, 0] \<lparr>sin_addr = 0, sin_port = 0\<rparr>
     [Datagram [1, 2, 3, 4, 5] \<lparr>sin_addr = 0x0701A8C0, sin_port = htons 1000\<rparr>]
     = ([Call_recvfrom 4, Printf ''recvfrom failed with error %d\<newline>'' [AInt 10040]], Exited 1)
   \<and> receive_loop [1, 1, 0, 0] \<lparr>sin_addr = 0, sin_port = 0\<rparr>
     [Datagram [2] \<lparr>sin_addr = 0x0701A8C0, sin_port = htons 1000\<rparr>]
     = ([Call_recvfrom 4, Printf ''Received %d from '%s'\<newline>'' [AInt 258, AStr ''192.168.1.7'']],
        Stopped)"
proof -
  let ?a = "\<lparr>sin_addr = 0x0701A8C0, sin_port = htons 1000\<rparr>"
  have l: "4 < length [1, 2, 3, 4, 5 :: 8 word]" "length [2 :: 8 word] < 4" by simp_all
  show ?thesis
    using l
      oversized_is_fatal_and_short_is_accepted [where p = "[1, 2, 3, 4, 5]" and buf = "[0, 0, 0, 0]" and dst = "\<lparr>sin_addr = 0, sin_port = 0\<rparr>"
          and src = ?a and rest = "[]"]
      oversized_is_fatal_and_short_is_accepted [where p = "[2]" and buf = "[1, 1, 0, 0]" and dst = "\<lparr>sin_addr = 0, sin_port = 0\<rparr>"
          and src = ?a and rest = "[]"]
    by (simp add: recvfrom_def bytes_int_def inet_ntoa_examples WSAEMSGSIZE_def SOCKET_ERROR_def)
qed

subsection \<open>Provisioning the socket\<close>

lemma htonl_any: "htonl INADDR_ANY = INADDR_ANY"
  by (simp add: htonl_def INADDR_ANY_def)

lemma main_after_parse:
  assumes "parseCommandLine argv (argv_beyond sys) 40061 1 [] 256 = (ev, Inr cfg)" and "WSAStartup_r sys = 0"
  shows "main sys argv =
     after (ev @ [Call_WSAStartup, Call_socket])
       (if socket_r sys < 0 then ([Perror ''Setting up socket''], Exited 1) else
        after [Call_setsockopt SO_BROADCAST 1]
       (if setsockopt_broadcast_r sys < 0 then ([Perror ''Setting broadcast''], Exited 1) else
        after [Call_setsockopt IP_MULTICAST_TTL (nTtl cfg)]
       (if setsockopt_ttl_r sys < 0 then ([Perror ''Setting TTL\<newline>''], Exited 1) else
        after [Call_bind \<lparr>sin_addr = INADDR_ANY, sin_port = htons (nPort cfg)\<rparr>]
       (if bind_r sys < 0 then ([Perror ''Binding socket''], Exited 1) else
        (case (if bRecv cfg \<noteq> 0 then receive (receive_dst0 sys) (arrivals sys)
               else broadcast (inet_addr_f sys) (nPort cfg) (sAddr cfg) (sendto_rs sys)) of
           (ev_l, Returned) \<Rightarrow> (ev_l, Exited 0)
         | (ev_l, out) \<Rightarrow> (ev_l, out))))))"
  unfolding main_def assms(1) using assms(2)
  by (simp add: after_def initWinSock_def htonl_any)

lemma loop_events:
  "snd l \<noteq> Returned \<Longrightarrow>
   (case l of (ev_l, Returned) \<Rightarrow> (ev_l, Exited 0) | (ev_l, out) \<Rightarrow> (ev_l, out)) = l"
  by (cases l) (auto split: outcome.splits)

text \<open>
  What \<open>main\<close> does to provision the socket. After the command line is parsed and Winsock
  is started, it opens the socket, enables broadcast, sets the multicast TTL to the
  configured value and binds to the wildcard address and the configured port, in this
  order. Each call is made only when every call before it succeeded. When one fails,
  \<open>perror\<close> is called with the name of the step and the process exits with status 1; the
  events of the run end there, so neither loop was entered. When all four succeed, the
  events of the chosen loop follow.
\<close>

lemma provisioning_is_four_guarded_steps:
  assumes "parseCommandLine argv (argv_beyond sys) 40061 1 [] 256 = (ev, Inr cfg)" and "WSAStartup_r sys = 0"
  shows
   "(socket_r sys < 0 \<longrightarrow>
       main sys argv = (ev @ [Call_WSAStartup, Call_socket, Perror ''Setting up socket''], Exited 1))
    \<and> (0 \<le> socket_r sys \<and> setsockopt_broadcast_r sys < 0 \<longrightarrow>
       main sys argv = (ev @ [Call_WSAStartup, Call_socket, Call_setsockopt SO_BROADCAST 1,
                             Perror ''Setting broadcast''], Exited 1))
    \<and> (0 \<le> socket_r sys \<and> 0 \<le> setsockopt_broadcast_r sys \<and> setsockopt_ttl_r sys < 0 \<longrightarrow>
       main sys argv = (ev @ [Call_WSAStartup, Call_socket, Call_setsockopt SO_BROADCAST 1,
                             Call_setsockopt IP_MULTICAST_TTL (nTtl cfg),
                             Perror ''Setting TTL\<newline>''], Exited 1))
    \<and> (0 \<le> socket_r sys \<and> 0 \<le> setsockopt_broadcast_r sys \<and> 0 \<le> setsockopt_ttl_r sys
         \<and> bind_r sys < 0 \<longrightarrow>
       main sys argv = (ev @ [Call_WSAStartup, Call_socket, Call_setsockopt SO_BROADCAST 1,
                             Call_setsockopt IP_MULTICAST_TTL (nTtl cfg),
                             Call_bind \<lparr>sin_addr = INADDR_ANY, sin_port = htons (nPort cfg)\<rparr>,
                             Perror ''Binding socket''], Exited 1))
    \<and> (0 \<le> socket_r sys \<and> 0 \<le> setsockopt_broadcast_r sys \<and> 0 \<le> setsockopt_ttl_r sys
         \<and> 0 \<le> bind_r sys \<longrightarrow>
       main sys argv =
         after (ev @ [Call_WSAStartup, Call_socket, Call_setsockopt SO_BROADCAST 1,
                      Call_setsockopt IP_MULTICAST_TTL (nTtl cfg),
                      Call_bind \<lparr>sin_addr = INADDR_ANY, sin_port = htons (nPort cfg)\<rparr>])
           (if bRecv cfg \<noteq> 0 then receive (receive_dst0 sys) (arrivals sys)
            else broadcast (inet_addr_f sys) (nPort cfg) (sAddr cfg) (sendto_rs sys)))"
proof -
  let ?l = "if bRecv cfg \<noteq> 0 then receive (receive_dst0 sys) (arrivals sys)
            else broadcast (inet_addr_f sys) (nPort cfg) (sAddr cfg) (sendto_rs sys)"
  have "snd ?l \<noteq> Returned"
    by (simp add: receive_outcome broadcast_outcome_cases)
  then have l: "(case ?l of (ev_l, Returned) \<Rightarrow> (ev_l, Exited 0) | (ev_l, out) \<Rightarrow> (ev_l, out)) = ?l"
    by (rule loop_events)
  show ?thesis
    unfolding main_after_parse [OF assms] l
    by (simp add: after_def)
qed

lemma provisioning_examples:
  "main (quiet_os\<lparr>socket_r := - 1\<rparr>) [''broadcast'', ''-t7'']
     = ([Call_WSAStartup, Call_socket, Perror ''Setting up socket''], Exited 1)
   \<and> main (quiet_os\<lparr>setsockopt_broadcast_r := - 1\<rparr>) [''broadcast'', ''-t7'']
     = ([Call_WSAStartup, Call_socket, Call_setsockopt SO_BROADCAST 1,
         Perror ''Setting broadcast''], Exited 1)
   \<and> main (quiet_os\<lparr>setsockopt_ttl_r := - 1\<rparr>) [''broadcast'', ''-t7'']
     = ([Call_WSAStartup, Call_socket, Call_setsockopt SO_BROADCAST 1,
         Call_setsockopt IP_MULTICAST_TTL 7, Perror ''Setting TTL\<newline>''], Exited 1)
   \<and> main (quiet_os\<lparr>bind_r := - 1\<rparr>) [''broadcast'', ''-t7'']
     = ([Call_WSAStartup, Call_socket, Call_setsockopt SO_BROADCAST 1,
         Call_setsockopt IP_MULTICAST_TTL 7,
         Call_bind \<lparr>sin_addr = 0, sin_port = htons 40061\<rparr>, Perror ''Binding socket''], Exited 1)
   \<and> main quiet_os [''broadcast'', ''-t7'', ''-r'']
     = ([Call_WSAStartup, Call_socket, Call_setsockopt SO_BROADCAST 1,
         Call_setsockopt IP_MULTICAST_TTL 7,
         Call_bind \<lparr>sin_addr = 0, sin_port = htons 40061\<rparr>,
         Printf ''Waiting for data\<newline>'' []], Stopped)"
proof -
  have p: "parseCommandLine [''broadcast'', ''-t7''] (argv_beyond s) 40061 1 [] 256
             = ([], Inr \<lparr>nPort = 40061, nTtl = 7, bRecv = 0, sAddr = []\<rparr>)" for s
    by (simp add: parse_eval strtol_eval)
  have q: "parseCommandLine [''broadcast'', ''-t7'', ''-r''] (argv_beyond s) 40061 1 [] 256
             = ([], Inr \<lparr>nPort = 40061, nTtl = 7, bRecv = 1, sAddr = []\<rparr>)" for s
    by (simp add: parse_eval strtol_eval)
  have w: "WSAStartup_r (quiet_os\<lparr>socket_r := - 1\<rparr>) = 0"
    "WSAStartup_r (quiet_os\<lparr>setsockopt_broadcast_r := - 1\<rparr>) = 0"
    "WSAStartup_r (quiet_os\<lparr>setsockopt_ttl_r := - 1\<rparr>) = 0"
    "WSAStartup_r (quiet_os\<lparr>bind_r := - 1\<rparr>) = 0"
    "WSAStartup_r quiet_os = 0"
    by (simp_all add: quiet_os_def)
  show ?thesis
    using provisioning_is_four_guarded_steps [OF p w(1)]
      provisioning_is_four_guarded_steps [OF p w(2)]
      provisioning_is_four_guarded_steps [OF p w(3)]
      provisioning_is_four_guarded_steps [OF p w(4)]
      provisioning_is_four_guarded_steps [OF q w(5)]
    by (simp add: quiet_os_def INADDR_ANY_def after_def receive_def)
qed

lemma main_ignores_winsock_error: "main (sys\<lparr>WSAGetLastError_r := e\<rparr>) argv = main sys argv"
  by (simp add: main_def cong: prod.case_cong sum.case_cong if_cong)

text \<open>
  C4. The code misses the claim at one point: a step that fails is not reported with the
  error behind it. \<open>main\<close> reports through \<open>perror\<close>, which prints the message for \<open>errno\<close>,
  and the calls of Winsock leave \<open>errno\<close> alone; the error is the one that
  \<open>WSAGetLastError()\<close> gives, as \<open>receive\<close> prints it, and \<open>main\<close> never asks for it. So the
  run of \<open>main\<close> is the same whatever that error is. With the port in use, \<open>bind\<close> fails
  with \<open>WSAEADDRINUSE\<close> (10048): the four steps are made in order, \<open>perror\<close> is called with
  the name of the step only, and the process exits with status 1 before any loop.
\<close>

theorem provisioning_failure_is_reported_without_its_error:
  "main (sys\<lparr>WSAGetLastError_r := e\<rparr>) argv = main sys argv
   \<and> main (quiet_os\<lparr>bind_r := - 1, WSAGetLastError_r := 10048\<rparr>) [''broadcast'']
     = ([Call_WSAStartup, Call_socket, Call_setsockopt SO_BROADCAST 1,
         Call_setsockopt IP_MULTICAST_TTL 1,
         Call_bind \<lparr>sin_addr = 0, sin_port = htons 40061\<rparr>, Perror ''Binding socket''], Exited 1)"
proof -
  have p: "parseCommandLine [''broadcast''] (argv_beyond s) 40061 1 [] 256
             = ([], Inr \<lparr>nPort = 40061, nTtl = 1, bRecv = 0, sAddr = []\<rparr>)" for s
    by (simp add: parse_eval)
  have w: "WSAStartup_r (quiet_os\<lparr>bind_r := - 1, WSAGetLastError_r := 10048\<rparr>) = 0"
    by (simp add: quiet_os_def)
  show ?thesis
    using provisioning_is_four_guarded_steps [OF p w]
    by (simp add: main_ignores_winsock_error quiet_os_def INADDR_ANY_def)
qed

end
